theory Spec2Isabelle
  imports Main
begin

section \<open>NacosX: the service lifecycle controller of \<^verbatim>\<open>nacosx/core.py\<close>\<close>

text \<open>
  The class \<^verbatim>\<open>NacosService\<close> is embedded by explicit state passing. One record holds
  the attributes of the Python object together with the part of the outside world its
  methods act on: how often each external operation has been invoked (\<open>seen\<close>) and the
  chronological list of observable effects (\<open>trace\<close>).

  Everything the code cannot decide by itself is read from an environment
  \<open>env k n\<close>: the answer to the \<open>n\<close>-th invocation of the external operation \<open>k\<close>. For a
  call of the registry client \<open>True\<close> means that the call returned normally and
  \<open>False\<close> that it raised an exception derived from \<^verbatim>\<open>Exception\<close>.

  Conventions of the model:
  \<^item> the re-entrant lock \<^verbatim>\<open>_lock\<close> is not represented: every definition below is the
    sequential run of one method;
  \<^item> the logger's methods, \<^verbatim>\<open>print\<close> and the \<^verbatim>\<open>threading\<close> primitives return
    normally;
  \<^item> delays and timeouts are whole seconds (\<open>int\<close>), as the defaults of the module are;
  \<^item> the test \<^verbatim>\<open>nacos is None\<close> of \<^verbatim>\<open>_init_client\<close> is always false, since the module is
    imported unconditionally at the top of the file.
\<close>

subsection \<open>Observable effects\<close>

datatype level = Debug | Info | Warning | Error

datatype msg =
    ClientInitialized
  | ServiceRegistered
  | RegisterFailed
  | Traceback
  | RegistrationRetry int int int
  | ServiceDeregistered
  | DeregisterFailed
  | HeartbeatFailed int int
  | SelfHealingStart
  | SelfHealingSucceeded
  | SelfHealingFailed
  | SelfHealingException
  | RegistrationGaveUp
  | HeartbeatThreadStarted int
  | StopThreadException
  | HandlersInstalled
  | InstallFailed
  | HandlersRestored
  | RestoreFailed
  | NacosAddrRequired
  | ServiceNameRequired
  | ServiceAddrFormat string
  | PortParseFailed string
  | DecoratedException
  | SleepLengthNegative
  | UnpackMismatch

text \<open>External operations: the four operations of the registry client, the wait on the
  stop event of the heartbeat thread, the liveness test of that thread,
  \<^verbatim>\<open>signal.signal\<close>, and the function wrapped by the decorator.\<close>

datatype ext =
    Construct
  | AddInstance
  | RemoveInstance
  | SendHeartbeat
  | StopWait
  | ThreadAlive
  | SignalSignal
  | WrappedFunc

datatype signum = SIGINT | SIGTERM

text \<open>What \<^verbatim>\<open>signal.getsignal\<close> can return besides \<^verbatim>\<open>None\<close>: the two constants, a
  callable, and in particular the closure \<^verbatim>\<open>_handle\<close> of a \<^verbatim>\<open>NacosService\<close>.\<close>

datatype handler = SIG_DFL | SIG_IGN | PyHandler | NacosHandle

datatype event =
    Call ext bool
  | AttrError ext
  | LogLine level msg
  | Print msg
  | Sleep int
  | Wait int bool
  | SetStop
  | ClearStop
  | ThreadStart
  | Join int
  | SignalSet signum handler bool

text \<open>Exceptions. \<open>ClientConstructError\<close> is whatever \<^verbatim>\<open>nacos.NacosClient(...)\<close> raises and
  \<open>WorkError\<close> whatever the wrapped function raises.\<close>

datatype exn =
    ClientConstructError
  | ValueError msg
  | WorkError

type_synonym env = "ext \<Rightarrow> nat \<Rightarrow> bool"

subsection \<open>The object\<close>

record nacos_service =
  nacos_addr :: string
  namespace :: "string option"
  service_name :: string
  service_ip :: string
  service_port :: int
  ephemeral :: bool
  metadata :: "(string \<times> string) list"
  username :: "string option"
  password :: "string option"
  logger :: bool
  register_retries :: int
  register_retry_delay :: int
  heartbeat_interval :: int
  heartbeat_max_failures :: int
  heartbeat_retry_delay :: int
  client :: bool
  heartbeat_thread :: bool
  heartbeat_stop :: bool
  registered :: bool
  orig_sigint :: "handler option"
  orig_sigterm :: "handler option"
  seen :: "ext \<Rightarrow> nat"
  trace :: "event list"

definition DEFAULT_REGISTER_RETRIES :: int where "DEFAULT_REGISTER_RETRIES = 3"
definition DEFAULT_REGISTER_RETRY_DELAY :: int where "DEFAULT_REGISTER_RETRY_DELAY = 2"
definition DEFAULT_HEARTBEAT_INTERVAL :: int where "DEFAULT_HEARTBEAT_INTERVAL = 5"
definition DEFAULT_HEARTBEAT_MAX_FAILURES :: int where "DEFAULT_HEARTBEAT_MAX_FAILURES = 5"
definition DEFAULT_HEARTBEAT_RETRY_DELAY :: int where "DEFAULT_HEARTBEAT_RETRY_DELAY = 2"
definition DEFAULT_UNREGISTER_TIMEOUT :: int where "DEFAULT_UNREGISTER_TIMEOUT = 2"

text \<open>\<^verbatim>\<open>NacosService.__init__\<close>: \<open>logger\<close> records whether a logger object was supplied,
  \<open>client\<close> whether \<^verbatim>\<open>_client\<close> is not \<^verbatim>\<open>None\<close>, \<open>heartbeat_thread\<close> whether
  \<^verbatim>\<open>_heartbeat_thread\<close> is not \<^verbatim>\<open>None\<close>, \<open>heartbeat_stop\<close> whether the event is set.\<close>

definition NacosService ::
  "string \<Rightarrow> string option \<Rightarrow> string \<Rightarrow> string \<Rightarrow> int \<Rightarrow> bool \<Rightarrow> (string \<times> string) list option
    \<Rightarrow> string option \<Rightarrow> string option \<Rightarrow> bool \<Rightarrow> int \<Rightarrow> int \<Rightarrow> int \<Rightarrow> int \<Rightarrow> int
    \<Rightarrow> nacos_service" where
  "NacosService addr ns name ip port eph md user pw lg retries retry_delay interval max_failures
      hb_retry_delay =
     \<lparr> nacos_addr = addr, namespace = ns, service_name = name, service_ip = ip,
       service_port = port, ephemeral = eph,
       metadata = (case md of None \<Rightarrow> [] | Some m \<Rightarrow> m),
       username = user, password = pw, logger = lg,
       register_retries = retries, register_retry_delay = retry_delay,
       heartbeat_interval = interval, heartbeat_max_failures = max_failures,
       heartbeat_retry_delay = hb_retry_delay,
       client = False, heartbeat_thread = False, heartbeat_stop = False, registered = False,
       orig_sigint = None, orig_sigterm = None,
       seen = (\<lambda>k. 0), trace = [] \<rparr>"

subsection \<open>Primitive effects\<close>

definition emit :: "event \<Rightarrow> nacos_service \<Rightarrow> nacos_service" where
  "emit e s = s\<lparr>trace := trace s @ [e]\<rparr>"

text \<open>\<^verbatim>\<open>_log\<close>: the logger's method of the given level when a logger is present, otherwise
  the fallback to \<^verbatim>\<open>print\<close>, which carries no level.\<close>

definition log :: "level \<Rightarrow> msg \<Rightarrow> nacos_service \<Rightarrow> nacos_service" where
  "log lv m s = (if logger s then emit (LogLine lv m) s else emit (Print m) s)"

text \<open>Reading the environment: the answer to the next invocation of \<open>k\<close>.\<close>

definition ask :: "env \<Rightarrow> ext \<Rightarrow> nacos_service \<Rightarrow> bool \<times> nacos_service" where
  "ask env k s = (env k (seen s k), s\<lparr>seen := (seen s)(k := Suc (seen s k))\<rparr>)"

definition call :: "env \<Rightarrow> ext \<Rightarrow> nacos_service \<Rightarrow> bool \<times> nacos_service" where
  "call env k s = (let (ok, s1) = ask env k s in (ok, emit (Call k ok) s1))"

text \<open>A method call on \<^verbatim>\<open>self._client\<close>: on \<^verbatim>\<open>None\<close> the attribute access raises
  \<^verbatim>\<open>AttributeError\<close> and the registry is not contacted.\<close>

definition client_call :: "env \<Rightarrow> ext \<Rightarrow> nacos_service \<Rightarrow> bool \<times> nacos_service" where
  "client_call env k s = (if client s then call env k s else (False, emit (AttrError k) s))"

text \<open>\<^verbatim>\<open>time.sleep\<close> raises \<^verbatim>\<open>ValueError\<close> on a negative length.\<close>

definition sleep :: "int \<Rightarrow> nacos_service \<Rightarrow> (exn + unit) \<times> nacos_service" where
  "sleep d s = (if d < 0 then (Inl (ValueError SleepLengthNegative), s) else (Inr (), emit (Sleep d) s))"

subsection \<open>Registration and deregistration\<close>

definition init_client :: "env \<Rightarrow> nacos_service \<Rightarrow> (exn + unit) \<times> nacos_service" where
  "init_client env s =
     (if \<not> client s then
        (let (ok, s1) = call env Construct s in
         if ok then (Inr (), log Info ClientInitialized (s1\<lparr>client := True\<rparr>))
         else (Inl ClientConstructError, s1))
      else (Inr (), s))"

definition register_once :: "env \<Rightarrow> nacos_service \<Rightarrow> bool \<times> nacos_service" where
  "register_once env s =
     (let (ok, s1) = client_call env AddInstance s in
      if ok then (True, log Info ServiceRegistered (s1\<lparr>registered := True\<rparr>))
      else (False, log Debug Traceback (log Warning RegisterFailed s1)))"

text \<open>The loop \<^verbatim>\<open>for attempt in range(1, retries + 1)\<close> of \<^verbatim>\<open>register_with_retry\<close>, from
  the value \<open>attempt\<close> of the loop variable on.\<close>

function register_attempts ::
  "env \<Rightarrow> int \<Rightarrow> int \<Rightarrow> int \<Rightarrow> nacos_service \<Rightarrow> (exn + bool) \<times> nacos_service" where
  "register_attempts env retries delay attempt s =
     (if attempt < retries + 1 then
        (let (ok, s1) = register_once env s in
         if ok then (Inr True, s1)
         else if attempt < retries then
           (let s2 = log Info (RegistrationRetry attempt retries delay) s1;
                (r, s3) = sleep delay s2
            in case r of
                 Inl e \<Rightarrow> (Inl e, s3)
               | Inr _ \<Rightarrow> register_attempts env retries delay (attempt + 1) s3)
         else register_attempts env retries delay (attempt + 1) s1)
      else (Inr False, s))"
  by pat_completeness auto
termination
  by (relation "measure (\<lambda>(env, retries, delay, attempt, s). nat (retries + 1 - attempt))") auto

declare register_attempts.simps [simp del]

definition register_with_retry ::
  "env \<Rightarrow> int option \<Rightarrow> int option \<Rightarrow> nacos_service \<Rightarrow> (exn + bool) \<times> nacos_service" where
  "register_with_retry env retries delay s =
     (let retries = (case retries of None \<Rightarrow> register_retries s | Some r \<Rightarrow> r);
          delay = (case delay of None \<Rightarrow> register_retry_delay s | Some d \<Rightarrow> d);
          (r, s1) = init_client env s
      in case r of
           Inl e \<Rightarrow> (Inl e, s1)
         | Inr _ \<Rightarrow> register_attempts env retries delay 1 s1)"

definition remove_once :: "env \<Rightarrow> nacos_service \<Rightarrow> bool \<times> nacos_service" where
  "remove_once env s =
     (let (ok, s1) = client_call env RemoveInstance s in
      if ok then (True, log Info ServiceDeregistered (s1\<lparr>registered := False\<rparr>))
      else (False, log Debug Traceback (log Warning DeregisterFailed s1)))"

subsection \<open>The heartbeat loop\<close>

text \<open>\<^verbatim>\<open>self._heartbeat_stop.wait(timeout)\<close> returns at once with \<^verbatim>\<open>True\<close> when the event
  is set. Otherwise the environment says whether the foreground sets the event while
  the thread waits; the result is the state of the event when the wait ends.\<close>

definition stop_wait :: "env \<Rightarrow> int \<Rightarrow> nacos_service \<Rightarrow> bool \<times> nacos_service" where
  "stop_wait env timeout s =
     (if heartbeat_stop s then (True, emit (Wait timeout True) s)
      else (let (fired, s1) = ask env StopWait s in
            (fired, emit (Wait timeout fired) (s1\<lparr>heartbeat_stop := fired\<rparr>))))"

text \<open>The self-healing block of \<^verbatim>\<open>_heartbeat_loop\<close> (the body of
  \<^verbatim>\<open>if fail_count >= self.heartbeat_max_failures\<close>); it returns the new value of
  \<^verbatim>\<open>fail_count\<close>. The inner \<^verbatim>\<open>except Exception: pass\<close> discards the result of the
  remove call; the outer handler catches what \<^verbatim>\<open>register_with_retry\<close> raises.\<close>

definition self_healing :: "env \<Rightarrow> int \<Rightarrow> nacos_service \<Rightarrow> int \<times> nacos_service" where
  "self_healing env fail_count s =
     (let s1 = log Warning SelfHealingStart s;
          (removed, s2) = client_call env RemoveInstance s1;
          (r, s3) = register_with_retry env None None s2
      in case r of
           Inr ok \<Rightarrow>
             if ok then (0, log Info SelfHealingSucceeded s3)
             else (fail_count, log Error SelfHealingFailed s3)
         | Inl e2 \<Rightarrow> (fail_count, log Debug Traceback (log Error SelfHealingException s3)))"

datatype ctl = Continue | Break

text \<open>One pass through the body of \<^verbatim>\<open>while not self._heartbeat_stop.is_set()\<close>, from the
  value \<open>fail_count\<close> of the local counter.\<close>

definition heartbeat_iteration ::
  "env \<Rightarrow> int \<Rightarrow> nacos_service \<Rightarrow> ctl \<times> int \<times> nacos_service" where
  "heartbeat_iteration env fail_count s =
     (let (is_stopped, s1) = stop_wait env (heartbeat_interval s) s in
      if is_stopped then (Break, fail_count, s1)
      else if \<not> ephemeral s1 then (Continue, fail_count, s1)
      else
        (let (ok, s2) = client_call env SendHeartbeat s1 in
         if ok then (Continue, 0, s2)
         else
           (let fail_count1 = fail_count + 1;
                s3 = log Warning (HeartbeatFailed fail_count1 (heartbeat_max_failures s2)) s2;
                s4 = log Debug Traceback s3;
                (stopped, s5) = stop_wait env (heartbeat_retry_delay s4) s4
            in if stopped then (Break, fail_count1, s5)
               else if fail_count1 \<ge> heartbeat_max_failures s5 then
                 (let (fail_count2, s6) = self_healing env fail_count1 s5
                  in (Continue, fail_count2, s6))
               else (Continue, fail_count1, s5))))"

text \<open>The loop may run for ever, so it is run for at most \<open>n\<close> passes. The first
  component of the result says whether the loop has been left; the second is
  \<^verbatim>\<open>fail_count\<close>.\<close>

fun heartbeat_while :: "nat \<Rightarrow> env \<Rightarrow> int \<Rightarrow> nacos_service \<Rightarrow> bool \<times> int \<times> nacos_service" where
  "heartbeat_while 0 env fail_count s = (heartbeat_stop s, fail_count, s)"
| "heartbeat_while (Suc n) env fail_count s =
     (if heartbeat_stop s then (True, fail_count, s)
      else (case heartbeat_iteration env fail_count s of
              (Break, fail_count', s') \<Rightarrow> (True, fail_count', s')
            | (Continue, fail_count', s') \<Rightarrow> heartbeat_while n env fail_count' s'))"

definition heartbeat_loop :: "nat \<Rightarrow> env \<Rightarrow> nacos_service \<Rightarrow> bool \<times> int \<times> nacos_service" where
  "heartbeat_loop n env s = heartbeat_while n env 0 s"

subsection \<open>Start and stop\<close>

text \<open>\<^verbatim>\<open>start\<close>: the thread object is created and started; its run is
  \<open>heartbeat_loop\<close>, which is not interleaved with the foreground here.\<close>

definition start :: "env \<Rightarrow> nacos_service \<Rightarrow> (exn + unit) \<times> nacos_service" where
  "start env s =
     (let (r, s1) = init_client env s in
      case r of
        Inl e \<Rightarrow> (Inl e, s1)
      | Inr _ \<Rightarrow>
          (let (r2, s2) = register_with_retry env None None s1 in
           case r2 of
             Inl e \<Rightarrow> (Inl e, s2)
           | Inr ok \<Rightarrow>
               if \<not> ok then (Inr (), log Error RegistrationGaveUp s2)
               else if ephemeral s2 then
                 (let s3 = emit ClearStop (s2\<lparr>heartbeat_stop := False\<rparr>);
                      s4 = emit ThreadStart (s3\<lparr>heartbeat_thread := True\<rparr>)
                  in (Inr (), log Info (HeartbeatThreadStarted (heartbeat_interval s4)) s4))
               else (Inr (), s2)))"

text \<open>\<^verbatim>\<open>stop\<close>: \<^verbatim>\<open>is_alive()\<close> is read from the environment, and only when a thread object
  exists (\<^verbatim>\<open>and\<close> is short-circuit). Neither \<^verbatim>\<open>set\<close> nor \<^verbatim>\<open>join\<close> raises, and
  \<open>remove_once\<close> returns a value on every path, so the two handlers of \<^verbatim>\<open>stop\<close> are
  never entered.\<close>

definition stop :: "env \<Rightarrow> int \<Rightarrow> nacos_service \<Rightarrow> nacos_service" where
  "stop env unregister_timeout s =
     (let s2 =
        (if heartbeat_thread s then
           (let (alive, s1) = ask env ThreadAlive s in
            if alive then emit (Join unregister_timeout) (emit SetStop (s1\<lparr>heartbeat_stop := True\<rparr>))
            else s1)
         else s)
      in snd (remove_once env s2))"

subsection \<open>Signal handlers and the context manager\<close>

text \<open>\<^verbatim>\<open>signal.signal\<close> raises \<^verbatim>\<open>ValueError\<close> outside the main thread; the environment
  says whether it does. The closure \<^verbatim>\<open>_handle\<close> runs when a signal arrives: it calls
  \<open>stop\<close> with the default timeout and then leaves the process, so its effect on the
  object is that of \<open>stop\<close>. The handlers found by \<^verbatim>\<open>signal.getsignal\<close> are
  parameters.\<close>

definition set_signal :: "env \<Rightarrow> signum \<Rightarrow> handler \<Rightarrow> nacos_service \<Rightarrow> bool \<times> nacos_service" where
  "set_signal env sig h s = (let (ok, s1) = ask env SignalSignal s in (ok, emit (SignalSet sig h ok) s1))"

definition install_signal_handlers ::
  "env \<Rightarrow> handler option \<Rightarrow> handler option \<Rightarrow> nacos_service \<Rightarrow> nacos_service" where
  "install_signal_handlers env cur_sigint cur_sigterm s =
     (let s1 = s\<lparr>orig_sigint := cur_sigint, orig_sigterm := cur_sigterm\<rparr>;
          (ok1, s2) = set_signal env SIGINT NacosHandle s1
      in if \<not> ok1 then log Warning InstallFailed s2
         else (let (ok2, s3) = set_signal env SIGTERM NacosHandle s2 in
               if \<not> ok2 then log Warning InstallFailed s3
               else log Info HandlersInstalled s3))"

definition restore_signal_handlers :: "env \<Rightarrow> nacos_service \<Rightarrow> nacos_service" where
  "restore_signal_handlers env s =
     (let (ok1, s1) = (case orig_sigint s of
                         None \<Rightarrow> (True, s)
                       | Some h \<Rightarrow> set_signal env SIGINT h s)
      in if \<not> ok1 then log Warning RestoreFailed s1
         else (let (ok2, s2) = (case orig_sigterm s1 of
                                  None \<Rightarrow> (True, s1)
                                | Some h \<Rightarrow> set_signal env SIGTERM h s1)
               in if \<not> ok2 then log Warning RestoreFailed s2
                  else log Info HandlersRestored s2))"

text \<open>\<^verbatim>\<open>__enter__\<close> and \<^verbatim>\<open>__exit__\<close>.\<close>

definition enter ::
  "env \<Rightarrow> handler option \<Rightarrow> handler option \<Rightarrow> nacos_service \<Rightarrow> (exn + unit) \<times> nacos_service" where
  "enter env cur_sigint cur_sigterm s = start env (install_signal_handlers env cur_sigint cur_sigterm s)"

definition exit :: "env \<Rightarrow> nacos_service \<Rightarrow> nacos_service" where
  "exit env s = restore_signal_handlers env (stop env DEFAULT_UNREGISTER_TIMEOUT s)"

subsection \<open>The decorator\<close>

text \<open>A string is a list of code points below 256. \<^verbatim>\<open>s.rsplit(sep, 1)\<close> splits at the
  last occurrence of \<open>sep\<close> and returns the string alone when there is none.\<close>

definition rsplit1 :: "char \<Rightarrow> string \<Rightarrow> string list" where
  "rsplit1 sep s =
     (if sep \<in> set s then
        [rev (tl (dropWhile (\<lambda>c. c \<noteq> sep) (rev s))), rev (takeWhile (\<lambda>c. c \<noteq> sep) (rev s))]
      else [s])"

text \<open>\<^verbatim>\<open>int(port_str)\<close> in base ten: white space around the literal is dropped, one
  sign is allowed, and single underscores may separate digits. \<open>None\<close> stands for
  \<^verbatim>\<open>ValueError\<close>. The interpreter's limit on the number of digits is not
  represented.

  The white space \<^verbatim>\<open>int\<close> drops is the tab, the line feed, the vertical tab, the form
  feed, the carriage return and the space (9 to 13 and 32), and of the code points
  from 128 on the next-line control and the no-break space (133 and 160), which
  \<^verbatim>\<open>int\<close> turns into spaces first. The separators 28 to 31 are copied unchanged and
  are not dropped, so a literal next to one of them is rejected. The only decimal
  digits below 256 are \<^verbatim>\<open>0\<close> to \<^verbatim>\<open>9\<close>.\<close>

definition is_space :: "char \<Rightarrow> bool" where
  "is_space c =
     (let n = (of_char c :: nat) in (9 \<le> n \<and> n \<le> 13) \<or> n = 32 \<or> n = 133 \<or> n = 160)"

definition is_digit :: "char \<Rightarrow> bool" where
  "is_digit c = (let n = (of_char c :: nat) in 48 \<le> n \<and> n \<le> 57)"

definition digit_value :: "char \<Rightarrow> int" where
  "digit_value c = int (of_char c) - 48"

definition strip :: "string \<Rightarrow> string" where
  "strip s = rev (dropWhile is_space (rev (dropWhile is_space s)))"

fun digits_from :: "int \<Rightarrow> string \<Rightarrow> int option" where
  "digits_from acc [] = Some acc"
| "digits_from acc (c # cs) =
     (if is_digit c then digits_from (10 * acc + digit_value c) cs
      else if c = CHR ''_'' then
        (case cs of
           [] \<Rightarrow> None
         | d # ds \<Rightarrow> if is_digit d then digits_from (10 * acc + digit_value d) ds else None)
      else None)"

definition unsigned_literal :: "string \<Rightarrow> int option" where
  "unsigned_literal s =
     (case s of
        [] \<Rightarrow> None
      | c # cs \<Rightarrow> if is_digit c then digits_from (digit_value c) cs else None)"

definition py_int :: "string \<Rightarrow> int option" where
  "py_int s =
     (case strip s of
        [] \<Rightarrow> None
      | c # cs \<Rightarrow>
          if c = CHR ''-'' then map_option uminus (unsigned_literal cs)
          else if c = CHR ''+'' then unsigned_literal cs
          else unsigned_literal (c # cs))"

text \<open>The arguments of \<^verbatim>\<open>nacos_registry\<close>.\<close>

record decorator_args =
  arg_enabled :: bool
  arg_nacos_addr :: string
  arg_namespace :: "string option"
  arg_service_name :: string
  arg_service_addr :: string
  arg_ephemeral :: bool
  arg_heartbeat_interval :: int
  arg_heartbeat_max_failures :: int
  arg_heartbeat_retry_delay :: int
  arg_metadata :: "(string \<times> string) list option"
  arg_username :: "string option"
  arg_password :: "string option"
  arg_logger :: bool
  arg_raise_on_register_fail :: bool
  arg_register_retries :: int
  arg_register_retry_delay :: int

text \<open>What a call of the decorated function does: it returns what the wrapped function
  returned, returns \<^verbatim>\<open>None\<close> in its place, or raises.\<close>

datatype outcome = Returned | ReturnedNone | Raised exn

text \<open>\<^verbatim>\<open>_call_func\<close> outside of any controller: the one call of the wrapped function.\<close>

definition call_func :: "env \<Rightarrow> outcome \<times> event list" where
  "call_func env =
     (let ok = env WrappedFunc 0 in
      (if ok then Returned else Raised WorkError, [Call WrappedFunc ok]))"

text \<open>The four validation failures of \<^verbatim>\<open>wrapper\<close> share their shape: raise
  \<^verbatim>\<open>ValueError(msg)\<close>, or print the message and call the function directly.\<close>

definition validation_failure ::
  "env \<Rightarrow> decorator_args \<Rightarrow> msg \<Rightarrow> outcome \<times> event list \<times> nacos_service option" where
  "validation_failure env a m =
     (if arg_raise_on_register_fail a then (Raised (ValueError m), [], None)
      else (let (r, es) = call_func env in (r, Print m # es, None)))"

text \<open>The handler \<^verbatim>\<open>except Exception as e\<close> around the \<^verbatim>\<open>with\<close> block.\<close>

definition decorated_exception ::
  "decorator_args \<Rightarrow> exn \<Rightarrow> nacos_service \<Rightarrow> outcome \<times> event list \<times> nacos_service option" where
  "decorated_exception a e s =
     (let es = (if arg_logger a then [LogLine Error DecoratedException, LogLine Debug Traceback]
                else [Print DecoratedException, Print Traceback])
      in (if arg_raise_on_register_fail a then Raised e else ReturnedNone, trace s @ es, Some s))"

text \<open>\<^verbatim>\<open>wrapper\<close>: the outcome of the call, every effect in order, and the controller when one
  was built. When \<^verbatim>\<open>__enter__\<close> raises, \<^verbatim>\<open>__exit__\<close> is not called.\<close>

definition wrapper ::
  "env \<Rightarrow> handler option \<Rightarrow> handler option \<Rightarrow> decorator_args
    \<Rightarrow> outcome \<times> event list \<times> nacos_service option" where
  "wrapper env cur_sigint cur_sigterm a =
     (if \<not> arg_enabled a then (let (r, es) = call_func env in (r, es, None))
      else if arg_nacos_addr a = [] then validation_failure env a NacosAddrRequired
      else if arg_service_name a = [] then validation_failure env a ServiceNameRequired
      else if arg_service_addr a = [] \<or> CHR '':'' \<notin> set (arg_service_addr a) then
        validation_failure env a (ServiceAddrFormat (arg_service_addr a))
      else
        (case rsplit1 (CHR '':'') (arg_service_addr a) of
           [ip_str, port_str] \<Rightarrow>
             (case py_int port_str of
                None \<Rightarrow> validation_failure env a (PortParseFailed (arg_service_addr a))
              | Some port \<Rightarrow>
                  (let nacos_svc =
                         NacosService (arg_nacos_addr a) (arg_namespace a) (arg_service_name a)
                           ip_str port (arg_ephemeral a) (arg_metadata a)
                           (arg_username a) (arg_password a) (arg_logger a)
                           (arg_register_retries a) (arg_register_retry_delay a)
                           (arg_heartbeat_interval a) (arg_heartbeat_max_failures a)
                           (arg_heartbeat_retry_delay a);
                       (r, s1) = enter env cur_sigint cur_sigterm nacos_svc
                   in case r of
                        Inl e \<Rightarrow> decorated_exception a e s1
                      | Inr _ \<Rightarrow>
                          (let (ok, s2) = call env WrappedFunc s1;
                               s3 = exit env s2
                           in if ok then (Returned, trace s3, Some s3)
                              else decorated_exception a WorkError s3)))
         | _ \<Rightarrow> (Raised (ValueError UnpackMismatch), [], None)))"

section \<open>Notions used in the statements\<close>

text \<open>The effects a method added to the trace between two states.\<close>

definition events_since :: "nacos_service \<Rightarrow> nacos_service \<Rightarrow> event list" where
  "events_since s s' = drop (length (trace s)) (trace s')"

text \<open>The number of invocations of the external operation \<open>k\<close> among some events.\<close>

definition calls_of :: "ext \<Rightarrow> event list \<Rightarrow> nat" where
  "calls_of k es = length (filter (\<lambda>e. case e of Call k' ok \<Rightarrow> k' = k | _ \<Rightarrow> False) es)"

text \<open>The add-instance calls and the sleeps among some events, in order.\<close>

definition attempts_and_sleeps :: "event list \<Rightarrow> event list" where
  "attempts_and_sleeps es =
     filter (\<lambda>e. case e of Call k ok \<Rightarrow> k = AddInstance | Sleep d \<Rightarrow> True | _ \<Rightarrow> False) es"

text \<open>\<open>m\<close> failed add-instance calls, each followed by a sleep of \<open>delay\<close>, and then one
  more add-instance call, after which nothing follows.\<close>

definition retry_pattern :: "nat \<Rightarrow> int \<Rightarrow> bool \<Rightarrow> event list" where
  "retry_pattern m delay ok =
     concat (replicate m [Call AddInstance False, Sleep delay]) @ [Call AddInstance ok]"

text \<open>The line \<^verbatim>\<open>_log\<close> writes, with or without a logger.\<close>

definition line :: "bool \<Rightarrow> level \<Rightarrow> msg \<Rightarrow> event" where
  "line lg lv m = (if lg then LogLine lv m else Print m)"

text \<open>Fields that no method of the registration path assigns: \<open>frame s s'\<close> says that
  \<open>s'\<close> differs from \<open>s\<close> at most in the client handle, the \<open>registered\<close> flag and
  the record of the outside world.\<close>

definition frame :: "nacos_service \<Rightarrow> nacos_service \<Rightarrow> bool" where
  "frame s s' \<longleftrightarrow>
     s' = s\<lparr>client := client s', registered := registered s', seen := seen s', trace := trace s'\<rparr>"

subsection \<open>Example inputs\<close>

text \<open>A controller as \<^verbatim>\<open>__init__\<close> leaves it: three registration attempts without delay,
  self-healing after two failed heartbeats.\<close>

definition fresh_service :: nacos_service where
  "fresh_service =
     NacosService ''127.0.0.1:8848'' None ''orders'' ''10.0.0.1'' 8080 True None None None True
       3 0 5 2 2"

text \<open>The client can be built, and every later call of the registry raises.\<close>

definition registry_down :: env where
  "registry_down k n = (k = Construct)"

text \<open>The client can be built and the second add-instance call is the only call of the
  registry that returns.\<close>

definition second_attempt_succeeds :: env where
  "second_attempt_succeeds k n = (k = Construct \<or> (k = AddInstance \<and> n = 1))"

text \<open>Every call returns, the stop event is never set by somebody else, and the
  heartbeat thread is alive whenever it is asked.\<close>

definition registry_up :: env where
  "registry_up k n = (k \<noteq> StopWait)"


subsection \<open>Kinds of events\<close>

text \<open>The messages and events that the registration path can produce.\<close>

definition registration_msg :: "msg \<Rightarrow> bool" where
  "registration_msg m =
     (case m of
        ClientInitialized \<Rightarrow> True
      | ServiceRegistered \<Rightarrow> True
      | RegisterFailed \<Rightarrow> True
      | Traceback \<Rightarrow> True
      | RegistrationRetry a r d \<Rightarrow> True
      | _ \<Rightarrow> False)"

definition registration_event :: "event \<Rightarrow> bool" where
  "registration_event e =
     (case e of
        Call k ok \<Rightarrow> k = Construct \<or> k = AddInstance
      | AttrError k \<Rightarrow> k = AddInstance
      | LogLine lv m \<Rightarrow> registration_msg m
      | Print m \<Rightarrow> registration_msg m
      | Sleep d \<Rightarrow> True
      | _ \<Rightarrow> False)"

text \<open>An error the code caught while using the registry client, for the operations
  selected by \<open>P\<close>: a call that raised, or the attribute error on a missing client.\<close>

definition caught_error :: "(ext \<Rightarrow> bool) \<Rightarrow> event \<Rightarrow> bool" where
  "caught_error P e = (case e of Call k ok \<Rightarrow> \<not> ok \<and> P k | AttrError k \<Rightarrow> P k | _ \<Rightarrow> False)"

text \<open>A line of warning or error level; without a logger, a printed line.\<close>

definition alert :: "bool \<Rightarrow> event \<Rightarrow> bool" where
  "alert lg e =
     (case e of
        LogLine lv m \<Rightarrow> lg \<and> (lv = Warning \<or> lv = Error)
      | Print m \<Rightarrow> \<not> lg
      | _ \<Rightarrow> False)"

text \<open>Every caught error among the events is directly followed by such a line.\<close>

fun errors_logged :: "bool \<Rightarrow> (ext \<Rightarrow> bool) \<Rightarrow> event list \<Rightarrow> bool" where
  "errors_logged lg P [] = True"
| "errors_logged lg P [e] = (\<not> caught_error P e)"
| "errors_logged lg P (e # e' # es) =
     ((if caught_error P e then alert lg e' else True) \<and> errors_logged lg P (e' # es))"

text \<open>What a run of the registration path does to a state \<open>s\<close>, whatever the
  environment: it leaves the fields outside the frame alone, adds registration events
  only, logs every caught error, returns \<^verbatim>\<open>True\<close> exactly when an add-instance call
  returned, and touches \<open>registered\<close> only in that case. The only error that can be
  the last event is that of the constructor, which is raised to the caller.\<close>

definition registration_run :: "nacos_service \<Rightarrow> (exn + bool) \<times> nacos_service \<Rightarrow> bool" where
  "registration_run s res =
     (case res of (r, s') \<Rightarrow>
        frame s s' \<and> (client s \<longrightarrow> client s') \<and>
        (\<exists>es. trace s' = trace s @ es \<and> list_all registration_event es \<and>
              errors_logged (logger s) (\<lambda>k. k \<noteq> Construct) es \<and>
              (\<forall>e. alert (logger s) e \<longrightarrow> errors_logged (logger s) (\<lambda>k. True) (es @ [e])) \<and>
              (r \<noteq> Inl ClientConstructError \<longrightarrow> errors_logged (logger s) (\<lambda>k. True) es) \<and>
              (r = Inr True \<longleftrightarrow> Call AddInstance True \<in> set es)) \<and>
        (r = Inr True \<longrightarrow> registered s') \<and> (r \<noteq> Inr True \<longrightarrow> registered s' = registered s))"

text \<open>The controller after a \<^verbatim>\<open>start\<close> during which every call returned: registered, and
  with a heartbeat thread.\<close>

definition started_service :: nacos_service where
  "started_service = snd (start registry_up fresh_service)"

text \<open>Every call returns, and the stop event is set during the first wait.\<close>

definition stop_requested :: env where
  "stop_requested k n = True"

text \<open>Arguments of the decorator with the defaults of the module.\<close>

definition example_args :: decorator_args where
  "example_args =
     \<lparr> arg_enabled = True, arg_nacos_addr = ''127.0.0.1:8848'', arg_namespace = None,
       arg_service_name = ''orders'', arg_service_addr = ''10.0.0.1:8080'', arg_ephemeral = True,
       arg_heartbeat_interval = DEFAULT_HEARTBEAT_INTERVAL,
       arg_heartbeat_max_failures = DEFAULT_HEARTBEAT_MAX_FAILURES,
       arg_heartbeat_retry_delay = DEFAULT_HEARTBEAT_RETRY_DELAY,
       arg_metadata = None, arg_username = None, arg_password = None, arg_logger = False,
       arg_raise_on_register_fail = True,
       arg_register_retries = DEFAULT_REGISTER_RETRIES,
       arg_register_retry_delay = DEFAULT_REGISTER_RETRY_DELAY \<rparr>"

subsection \<open>The failure counter, read off the events\<close>

text \<open>A heartbeat send and its outcome; the attribute error on a missing client is a
  failed send.\<close>

definition send_outcome :: "event \<Rightarrow> bool option" where
  "send_outcome e =
     (case e of
        Call k ok \<Rightarrow> if k = SendHeartbeat then Some ok else None
      | AttrError k \<Rightarrow> if k = SendHeartbeat then Some False else None
      | _ \<Rightarrow> None)"


definition self_healing_invoked :: "event list \<Rightarrow> bool" where
  "self_healing_invoked es =
     (LogLine Warning SelfHealingStart \<in> set es \<or> Print SelfHealingStart \<in> set es)"



text \<open>The number of failed sends since the last successful send, starting from \<open>c\<close>.\<close>

definition failure_step :: "nat \<Rightarrow> event \<Rightarrow> nat" where
  "failure_step c e = (case send_outcome e of Some ok \<Rightarrow> if ok then 0 else Suc c | None \<Rightarrow> c)"

definition failed_sends_in_a_row :: "nat \<Rightarrow> event list \<Rightarrow> nat" where
  "failed_sends_in_a_row c es = foldl failure_step c es"

text \<open>The event \<open>e\<close> is directly followed by the event \<open>e'\<close> somewhere in the list.\<close>

fun directly_followed :: "event \<Rightarrow> event \<Rightarrow> event list \<Rightarrow> bool" where
  "directly_followed e e' (x # y # es) = ((x = e \<and> y = e') \<or> directly_followed e e' (y # es))"
| "directly_followed e e' es = False"

section \<open>Basic facts\<close>

lemmas prims = emit_def log_def ask_def call_def client_call_def sleep_def

lemma events_since_append: "trace s' = trace s @ es \<Longrightarrow> events_since s s' = es"
  by (simp add: events_since_def)

lemma events_since_self: "events_since s s = []"
  by (simp add: events_since_def)

lemma attempts_and_sleeps_append:
  "attempts_and_sleeps (xs @ ys) = attempts_and_sleeps xs @ attempts_and_sleeps ys"
  by (simp add: attempts_and_sleeps_def)

lemma calls_of_append: "calls_of k (xs @ ys) = calls_of k xs + calls_of k ys"
  by (simp add: calls_of_def)

lemma calls_of_attempts: "calls_of AddInstance (attempts_and_sleeps es) = calls_of AddInstance es"
  unfolding calls_of_def attempts_and_sleeps_def filter_filter
  by (rule arg_cong[where f = length], rule filter_cong) (auto split: event.splits)

lemma calls_of_retry_pattern: "calls_of AddInstance (retry_pattern m d ok) = Suc m"
  by (induction m) (simp_all add: retry_pattern_def calls_of_def)

lemma log_trace: "trace (log lv m s) = trace s @ [line (logger s) lv m]"
  by (simp add: prims line_def)

lemma log_fields:
  "client (log lv m s) = client s" "seen (log lv m s) = seen s"
  "registered (log lv m s) = registered s" "logger (log lv m s) = logger s"
  by (simp_all add: prims)

subsection \<open>One registry call\<close>

lemma register_once_result:
  "fst (register_once env s) \<longleftrightarrow> client s \<and> env AddInstance (seen s AddInstance)"
  by (simp add: register_once_def prims Let_def split: prod.splits)

lemma remove_once_result:
  "fst (remove_once env s) \<longleftrightarrow> client s \<and> env RemoveInstance (seen s RemoveInstance)"
  by (simp add: remove_once_def prims Let_def split: prod.splits)

lemma register_once_client:
  assumes "client s"
  shows "fst (register_once env s) = env AddInstance (seen s AddInstance)"
    and "client (snd (register_once env s))"
    and "seen (snd (register_once env s)) = (seen s)(AddInstance := Suc (seen s AddInstance))"
    and "\<exists>es. trace (snd (register_once env s)) = trace s @ es \<and>
           attempts_and_sleeps es = [Call AddInstance (env AddInstance (seen s AddInstance))]"
  using assms
  by (simp_all add: register_once_def prims attempts_and_sleeps_def Let_def split: prod.splits)

subsection \<open>The retry loop\<close>

lemma register_attempts_done:
  "\<not> attempt < retries + 1 \<Longrightarrow> register_attempts env retries delay attempt s = (Inr False, s)"
  by (subst register_attempts.simps) simp

lemma register_attempts_run:
  assumes "client s" and "0 \<le> delay"
    and "\<forall>i<j. \<not> env AddInstance (seen s AddInstance + i)"
    and "attempt + int j \<le> retries"
    and "env AddInstance (seen s AddInstance + j) \<or> attempt + int j = retries"
  shows "\<exists>s' es. register_attempts env retries delay attempt s =
                   (Inr (env AddInstance (seen s AddInstance + j)), s') \<and>
            trace s' = trace s @ es \<and>
            attempts_and_sleeps es = retry_pattern j delay (env AddInstance (seen s AddInstance + j))"
  using assms
proof (induction j arbitrary: attempt s)
  case 0
  obtain ok s1 where r: "register_once env s = (ok, s1)" by (cases "register_once env s")
  from register_once_client[OF \<open>client s\<close>, of env] r
  have ok: "ok = env AddInstance (seen s AddInstance)"
    and tr: "\<exists>es. trace s1 = trace s @ es \<and> attempts_and_sleeps es = [Call AddInstance ok]"
    by simp_all
  from 0 have le: "attempt \<le> retries" by simp
  show ?case
  proof (cases ok)
    case True
    with r le tr ok show ?thesis
      by (subst register_attempts.simps) (simp add: retry_pattern_def)
  next
    case False
    with 0 ok have "attempt = retries" by simp
    with r False tr ok show ?thesis
      by (subst register_attempts.simps) (simp add: retry_pattern_def register_attempts_done)
  qed
next
  case (Suc j)
  obtain ok s1 where r: "register_once env s = (ok, s1)" by (cases "register_once env s")
  from Suc.prems have nok: "\<not> env AddInstance (seen s AddInstance)" by auto
  from register_once_client[OF \<open>client s\<close>, of env] r nok
  have ok: "\<not> ok" and c1: "client s1"
    and sn: "seen s1 = (seen s)(AddInstance := Suc (seen s AddInstance))"
    and tr: "\<exists>es. trace s1 = trace s @ es \<and> attempts_and_sleeps es = [Call AddInstance False]"
    by simp_all
  define s2 where "s2 = log Info (RegistrationRetry attempt retries delay) s1"
  define s3 where "s3 = emit (Sleep delay) s2"
  have sl: "sleep delay s2 = (Inr (), s3)"
    using \<open>0 \<le> delay\<close> by (simp add: sleep_def s3_def)
  have c3: "client s3" and sn3: "seen s3 AddInstance = Suc (seen s AddInstance)"
    using c1 sn by (simp_all add: s3_def s2_def emit_def log_fields)
  from tr obtain es1 where es1: "trace s1 = trace s @ es1"
      "attempts_and_sleeps es1 = [Call AddInstance False]"
    by blast
  have tr3: "trace s3 = trace s @ (es1 @ [line (logger s1) Info (RegistrationRetry attempt retries delay), Sleep delay])"
    using es1 by (simp add: s3_def s2_def emit_def log_trace)
  have "\<exists>s' es. register_attempts env retries delay (attempt + 1) s3 =
                   (Inr (env AddInstance (seen s3 AddInstance + j)), s') \<and>
            trace s' = trace s3 @ es \<and>
            attempts_and_sleeps es = retry_pattern j delay (env AddInstance (seen s3 AddInstance + j))"
    using Suc.prems c3 sn3 by (intro Suc.IH) auto
  then obtain s' es where IH:
    "register_attempts env retries delay (attempt + 1) s3 =
       (Inr (env AddInstance (seen s AddInstance + Suc j)), s')"
    "trace s' = trace s3 @ es"
    "attempts_and_sleeps es = retry_pattern j delay (env AddInstance (seen s AddInstance + Suc j))"
    using sn3 by auto
  from Suc.prems have lt: "attempt < retries" by simp
  have "register_attempts env retries delay attempt s =
          register_attempts env retries delay (attempt + 1) s3"
    using r ok lt sl by (subst register_attempts.simps) (simp add: s2_def)
  with IH tr3 es1 show ?case
    by (auto simp: retry_pattern_def attempts_and_sleeps_append attempts_and_sleeps_def line_def)
qed

subsection \<open>The client handle\<close>

lemma init_client_cases:
  "init_client env s =
     (if client s then (Inr (), s)
      else if env Construct (seen s Construct) then
        (Inr (), s\<lparr>client := True, seen := (seen s)(Construct := Suc (seen s Construct)),
                   trace := trace s @ [Call Construct True, line (logger s) Info ClientInitialized]\<rparr>)
      else (Inl ClientConstructError,
            s\<lparr>seen := (seen s)(Construct := Suc (seen s Construct)),
              trace := trace s @ [Call Construct False]\<rparr>))"
  by (simp add: init_client_def prims line_def Let_def)


section \<open>Registration\<close>

text \<open>
  Claim C10. When \<^verbatim>\<open>_register_once\<close> or \<^verbatim>\<open>_remove_once\<close> fails, the flag
  \<open>registered\<close> keeps the value it had. A call fails exactly when there is no client
  handle or the call of the registry raises; the flag is assigned only on the other
  path, to \<open>True\<close> by a registration and to \<open>False\<close> by a removal.
\<close>

theorem failed_call_keeps_registered:
  "(\<not> fst (register_once env s) \<longrightarrow> registered (snd (register_once env s)) = registered s) \<and>
   (\<not> fst (remove_once env s) \<longrightarrow> registered (snd (remove_once env s)) = registered s) \<and>
   (fst (register_once env s) \<longleftrightarrow> client s \<and> env AddInstance (seen s AddInstance)) \<and>
   (fst (remove_once env s) \<longleftrightarrow> client s \<and> env RemoveInstance (seen s RemoveInstance)) \<and>
   (fst (register_once env s) \<longrightarrow> registered (snd (register_once env s))) \<and>
   (fst (remove_once env s) \<longrightarrow> \<not> registered (snd (remove_once env s)))"
  by (simp add: register_once_def remove_once_def prims Let_def split: prod.splits)

theorem failed_call_keeps_registered_witness:
  "\<not> fst (register_once registry_down (fresh_service\<lparr>client := True\<rparr>)) \<and>
   \<not> registered (snd (register_once registry_down (fresh_service\<lparr>client := True\<rparr>))) \<and>
   \<not> fst (remove_once registry_down (fresh_service\<lparr>client := True, registered := True\<rparr>)) \<and>
   registered (snd (remove_once registry_down (fresh_service\<lparr>client := True, registered := True\<rparr>))) \<and>
   fst (register_once registry_up (fresh_service\<lparr>client := True\<rparr>)) \<and>
   registered (snd (register_once registry_up (fresh_service\<lparr>client := True\<rparr>))) \<and>
   fst (remove_once registry_up (fresh_service\<lparr>client := True, registered := True\<rparr>)) \<and>
   \<not> registered (snd (remove_once registry_up (fresh_service\<lparr>client := True, registered := True\<rparr>)))"
  using failed_call_keeps_registered [of registry_down "fresh_service\<lparr>client := True\<rparr>"]
    failed_call_keeps_registered [of registry_down "fresh_service\<lparr>client := True, registered := True\<rparr>"]
    failed_call_keeps_registered [of registry_up "fresh_service\<lparr>client := True\<rparr>"]
    failed_call_keeps_registered [of registry_up "fresh_service\<lparr>client := True, registered := True\<rparr>"]
  by (simp add: registry_down_def registry_up_def fresh_service_def NacosService_def)

text \<open>
  Claim C9. With an effective number of retries that is zero or negative,
  \<^verbatim>\<open>register_with_retry\<close> makes no add-instance call and returns \<^verbatim>\<open>False\<close>, and the
  client handle exists when it returns: it was there before, or it has just been built
  (one constructor call and the info line). The only other course is that the
  constructor raises; then the exception leaves the method and there is no handle.
\<close>

theorem register_with_retry_without_attempts:
  assumes "(case retries of None \<Rightarrow> register_retries s | Some r \<Rightarrow> r) \<le> 0"
  shows "case register_with_retry env retries delay s of
           (Inr ok, s') \<Rightarrow>
             \<not> ok \<and> client s' \<and> (client s \<or> env Construct (seen s Construct)) \<and>
             calls_of AddInstance (events_since s s') = 0 \<and>
             seen s' AddInstance = seen s AddInstance \<and>
             events_since s s' =
               (if client s then [] else [Call Construct True, line (logger s) Info ClientInitialized])
         | (Inl e, s') \<Rightarrow>
             e = ClientConstructError \<and> \<not> client s \<and> \<not> env Construct (seen s Construct) \<and>
             \<not> client s' \<and> events_since s s' = [Call Construct False]"
  using assms
  by (simp add: register_with_retry_def init_client_cases register_attempts_done
      events_since_def calls_of_def line_def split: option.splits)

theorem register_with_retry_without_attempts_witness:
  "(0::int) \<le> 0 \<and>
   fst (register_with_retry registry_up (Some 0) None fresh_service) = Inr False \<and>
   \<not> client fresh_service \<and>
   client (snd (register_with_retry registry_up (Some 0) None fresh_service)) \<and>
   trace (snd (register_with_retry registry_up (Some 0) None fresh_service)) =
     [Call Construct True, LogLine Info ClientInitialized]"
  using register_with_retry_without_attempts
      [where retries = "Some 0" and s = fresh_service and env = registry_up and delay = None]
  by (simp add: register_with_retry_def init_client_cases register_attempts_done
      registry_up_def fresh_service_def NacosService_def line_def)


lemma init_client_ok:
  assumes "client s \<or> env Construct (seen s Construct)"
  shows "\<exists>s1 es0. init_client env s = (Inr (), s1) \<and> client s1 \<and>
           seen s1 AddInstance = seen s AddInstance \<and>
           trace s1 = trace s @ es0 \<and> attempts_and_sleeps es0 = []"
  using assms by (auto simp: init_client_cases attempts_and_sleeps_def line_def)

lemma register_with_retry_run:
  assumes "client s \<or> env Construct (seen s Construct)" and "0 \<le> delay"
    and "\<forall>i<j. \<not> env AddInstance (seen s AddInstance + i)"
    and "1 + int j \<le> retries"
    and "env AddInstance (seen s AddInstance + j) \<or> 1 + int j = retries"
  shows "\<exists>s'. register_with_retry env (Some retries) (Some delay) s =
                   (Inr (env AddInstance (seen s AddInstance + j)), s') \<and>
            attempts_and_sleeps (events_since s s') =
              retry_pattern j delay (env AddInstance (seen s AddInstance + j))"
proof -
  from init_client_ok[where s = s and env = env] assms(1) obtain s1 es0 where i:
    "init_client env s = (Inr (), s1)" "client s1" "seen s1 AddInstance = seen s AddInstance"
    "trace s1 = trace s @ es0" "attempts_and_sleeps es0 = []"
    by blast
  from register_attempts_run[of s1 delay j env 1 retries] assms i
  obtain s' es where r:
    "register_attempts env retries delay 1 s1 = (Inr (env AddInstance (seen s AddInstance + j)), s')"
    "trace s' = trace s1 @ es"
    "attempts_and_sleeps es = retry_pattern j delay (env AddInstance (seen s AddInstance + j))"
    by auto
  have "trace s' = trace s @ (es0 @ es)" using i r by simp
  then have "events_since s s' = es0 @ es" by (rule events_since_append)
  with i r show ?thesis
    by (simp add: register_with_retry_def attempts_and_sleeps_append)
qed

text \<open>
  Claim C1. Let \<open>retries\<close> be at least one, the delay a length \<^verbatim>\<open>time.sleep\<close> accepts,
  and the client handle present or constructible. If the next \<open>retries\<close> add-instance
  calls all raise, \<^verbatim>\<open>register_with_retry\<close> returns \<^verbatim>\<open>False\<close> after exactly \<open>retries\<close>
  calls. If the \<open>k\<close>-th of them is the first to return, it returns \<^verbatim>\<open>True\<close> after exactly
  \<open>k\<close> calls. In both cases every call but the last is followed by one sleep of
  \<open>delay\<close>, and no sleep follows the last call. (When the arguments are omitted the
  configured values are taken, see \<open>register_with_retry_defaults\<close>.)
\<close>

theorem register_with_retry_attempts:
  assumes "1 \<le> retries" and "0 \<le> delay" and "client s \<or> env Construct (seen s Construct)"
  shows
    "((\<forall>i < nat retries. \<not> env AddInstance (seen s AddInstance + i)) \<longrightarrow>
        (\<exists>s'. register_with_retry env (Some retries) (Some delay) s = (Inr False, s') \<and>
              calls_of AddInstance (events_since s s') = nat retries \<and>
              attempts_and_sleeps (events_since s s') = retry_pattern (nat retries - 1) delay False)) \<and>
     (\<forall>k. 1 \<le> k \<and> k \<le> nat retries \<and>
           (\<forall>i < k - 1. \<not> env AddInstance (seen s AddInstance + i)) \<and>
           env AddInstance (seen s AddInstance + (k - 1)) \<longrightarrow>
        (\<exists>s'. register_with_retry env (Some retries) (Some delay) s = (Inr True, s') \<and>
              calls_of AddInstance (events_since s s') = k \<and>
              attempts_and_sleeps (events_since s s') = retry_pattern (k - 1) delay True))"
proof (intro conjI impI allI)
  assume fail: "\<forall>i < nat retries. \<not> env AddInstance (seen s AddInstance + i)"
  define j where "j = nat retries - 1"
  have j: "1 + int j = retries" "j < nat retries" using assms(1) by (simp_all add: j_def)
  with fail have "\<forall>i<j. \<not> env AddInstance (seen s AddInstance + i)"
    and no: "\<not> env AddInstance (seen s AddInstance + j)" by simp_all
  with register_with_retry_run[where s = s and env = env and delay = delay and j = j and retries = retries]
    assms j
  obtain s' where r: "register_with_retry env (Some retries) (Some delay) s = (Inr False, s')"
    "attempts_and_sleeps (events_since s s') = retry_pattern j delay False"
    by auto
  have "calls_of AddInstance (events_since s s') = Suc j"
    using r(2) calls_of_attempts[of "events_since s s'"] by (simp add: calls_of_retry_pattern)
  with r j show "\<exists>s'. register_with_retry env (Some retries) (Some delay) s = (Inr False, s') \<and>
              calls_of AddInstance (events_since s s') = nat retries \<and>
              attempts_and_sleeps (events_since s s') = retry_pattern (nat retries - 1) delay False"
    using assms(1) by (auto simp: j_def)
next
  fix k
  assume k: "1 \<le> k \<and> k \<le> nat retries \<and>
           (\<forall>i < k - 1. \<not> env AddInstance (seen s AddInstance + i)) \<and>
           env AddInstance (seen s AddInstance + (k - 1))"
  then have "1 + int (k - 1) \<le> retries" by linarith
  with register_with_retry_run[where s = s and env = env and delay = delay and j = "k - 1"
      and retries = retries] assms k
  obtain s' where r: "register_with_retry env (Some retries) (Some delay) s = (Inr True, s')"
    "attempts_and_sleeps (events_since s s') = retry_pattern (k - 1) delay True"
    by auto
  have "calls_of AddInstance (events_since s s') = Suc (k - 1)"
    using r(2) calls_of_attempts[of "events_since s s'"] by (simp add: calls_of_retry_pattern)
  with r k show "\<exists>s'. register_with_retry env (Some retries) (Some delay) s = (Inr True, s') \<and>
              calls_of AddInstance (events_since s s') = k \<and>
              attempts_and_sleeps (events_since s s') = retry_pattern (k - 1) delay True"
    by auto
qed

theorem register_with_retry_attempts_witness:
  "(1::int) \<le> 3 \<and> (0::int) \<le> 0 \<and>
   fst (register_with_retry registry_down (Some 3) (Some 0) fresh_service) = Inr False \<and>
   attempts_and_sleeps (trace (snd (register_with_retry registry_down (Some 3) (Some 0) fresh_service))) =
     [Call AddInstance False, Sleep 0, Call AddInstance False, Sleep 0, Call AddInstance False] \<and>
   fst (register_with_retry second_attempt_succeeds (Some 3) (Some 0) fresh_service) = Inr True \<and>
   attempts_and_sleeps (trace (snd (register_with_retry second_attempt_succeeds (Some 3) (Some 0) fresh_service))) =
     [Call AddInstance False, Sleep 0, Call AddInstance True]"
proof -
  have f: "trace fresh_service = []" "seen fresh_service AddInstance = 0"
    "seen fresh_service Construct = 0"
    by (simp_all add: fresh_service_def NacosService_def)
  have e: "events_since fresh_service s' = trace s'" for s'
    by (simp add: events_since_def f)
  have p: "retry_pattern 2 0 False =
      [Call AddInstance False, Sleep 0, Call AddInstance False, Sleep 0, Call AddInstance False]"
    "retry_pattern (Suc 0) 0 True = [Call AddInstance False, Sleep 0, Call AddInstance True]"
    by (simp_all add: retry_pattern_def eval_nat_numeral)
  have d: "\<forall>i < nat 3. \<not> registry_down AddInstance (seen fresh_service AddInstance + i)"
    by (simp add: registry_down_def)
  have u: "(1::nat) \<le> 2 \<and> 2 \<le> nat 3 \<and>
           (\<forall>i < 2 - 1. \<not> second_attempt_succeeds AddInstance (seen fresh_service AddInstance + i)) \<and>
           second_attempt_succeeds AddInstance (seen fresh_service AddInstance + (2 - 1))"
    by (simp add: second_attempt_succeeds_def f)
  have c1: "client fresh_service \<or> registry_down Construct (seen fresh_service Construct)"
    by (simp add: registry_down_def)
  have c2: "client fresh_service \<or> second_attempt_succeeds Construct (seen fresh_service Construct)"
    by (simp add: second_attempt_succeeds_def)
  have A: "(1::int) \<le> 3" "(0::int) \<le> 0" by simp_all
  note T1 = conjunct1 [OF register_with_retry_attempts
      [where retries = 3 and delay = 0 and s = fresh_service and env = registry_down, OF A c1]]
  note T2 = conjunct2 [OF register_with_retry_attempts
      [where retries = 3 and delay = 0 and s = fresh_service and env = second_attempt_succeeds,
        OF A c2]]
  from T1 d
  have 1: "fst (register_with_retry registry_down (Some 3) (Some 0) fresh_service) = Inr False \<and>
      attempts_and_sleeps (trace (snd (register_with_retry registry_down (Some 3) (Some 0) fresh_service))) =
     [Call AddInstance False, Sleep 0, Call AddInstance False, Sleep 0, Call AddInstance False]"
    by (auto simp: e p)
  from T2 [rule_format, of 2] u
  have 2: "fst (register_with_retry second_attempt_succeeds (Some 3) (Some 0) fresh_service) = Inr True \<and>
   attempts_and_sleeps (trace (snd (register_with_retry second_attempt_succeeds (Some 3) (Some 0) fresh_service))) =
     [Call AddInstance False, Sleep 0, Call AddInstance True]"
    by (auto simp: e p)
  from 1 2 show ?thesis by simp
qed

section \<open>Frames and logged errors\<close>

lemma frame_refl: "frame s s"
  by (simp add: frame_def)

lemma frame_iff:
  "frame s s' \<longleftrightarrow>
     nacos_addr s' = nacos_addr s \<and> namespace s' = namespace s \<and>
     service_name s' = service_name s \<and> service_ip s' = service_ip s \<and>
     service_port s' = service_port s \<and> ephemeral s' = ephemeral s \<and>
     metadata s' = metadata s \<and> username s' = username s \<and> password s' = password s \<and>
     logger s' = logger s \<and> register_retries s' = register_retries s \<and>
     register_retry_delay s' = register_retry_delay s \<and>
     heartbeat_interval s' = heartbeat_interval s \<and>
     heartbeat_max_failures s' = heartbeat_max_failures s \<and>
     heartbeat_retry_delay s' = heartbeat_retry_delay s \<and>
     heartbeat_thread s' = heartbeat_thread s \<and> heartbeat_stop s' = heartbeat_stop s \<and>
     orig_sigint s' = orig_sigint s \<and> orig_sigterm s' = orig_sigterm s"
  by (cases s, cases s') (auto simp: frame_def)

lemma frame_trans: "frame s s' \<Longrightarrow> frame s' s'' \<Longrightarrow> frame s s''"
  by (simp add: frame_iff)

lemma frame_logger: "frame s s' \<Longrightarrow> logger s' = logger s"
  by (simp add: frame_iff)

lemma frame_log: "frame s (log lv m s)"
  by (simp add: frame_def prims)

lemma frame_emit: "frame s (emit e s)"
  by (simp add: frame_def prims)

lemma errors_logged_append:
  "errors_logged lg P xs \<Longrightarrow> errors_logged lg P ys \<Longrightarrow> errors_logged lg P (xs @ ys)"
proof (induction lg P xs rule: errors_logged.induct)
  case (2 lg P e)
  then show ?case by (cases ys) simp_all
qed simp_all

lemma errors_logged_weaken:
  "errors_logged lg P es \<Longrightarrow> (\<And>k. Q k \<Longrightarrow> P k) \<Longrightarrow> errors_logged lg Q es"
  by (induction lg P es rule: errors_logged.induct) (auto simp: caught_error_def split: event.splits)

lemma register_once_cases:
  "register_once env s =
     (if client s then
        (if env AddInstance (seen s AddInstance) then
           (True, s\<lparr>registered := True, seen := (seen s)(AddInstance := Suc (seen s AddInstance)),
                    trace := trace s @ [Call AddInstance True, line (logger s) Info ServiceRegistered]\<rparr>)
         else
           (False, s\<lparr>seen := (seen s)(AddInstance := Suc (seen s AddInstance)),
                     trace := trace s @ [Call AddInstance False, line (logger s) Warning RegisterFailed,
                                         line (logger s) Debug Traceback]\<rparr>))
      else (False, s\<lparr>trace := trace s @ [AttrError AddInstance, line (logger s) Warning RegisterFailed,
                                         line (logger s) Debug Traceback]\<rparr>))"
  by (simp add: register_once_def prims line_def Let_def)

lemma remove_once_cases:
  "remove_once env s =
     (if client s then
        (if env RemoveInstance (seen s RemoveInstance) then
           (True, s\<lparr>registered := False, seen := (seen s)(RemoveInstance := Suc (seen s RemoveInstance)),
                    trace := trace s @ [Call RemoveInstance True, line (logger s) Info ServiceDeregistered]\<rparr>)
         else
           (False, s\<lparr>seen := (seen s)(RemoveInstance := Suc (seen s RemoveInstance)),
                     trace := trace s @ [Call RemoveInstance False, line (logger s) Warning DeregisterFailed,
                                         line (logger s) Debug Traceback]\<rparr>))
      else (False, s\<lparr>trace := trace s @ [AttrError RemoveInstance, line (logger s) Warning DeregisterFailed,
                                         line (logger s) Debug Traceback]\<rparr>))"
  by (simp add: remove_once_def prims line_def Let_def)

section \<open>The registration path in general\<close>

lemma registration_runI:
  assumes "frame s s'" and "client s \<longrightarrow> client s'" and "trace s' = trace s @ es"
    and "list_all registration_event es"
    and "errors_logged (logger s) (\<lambda>k. k \<noteq> Construct) es"
    and "\<And>e. alert (logger s) e \<Longrightarrow> errors_logged (logger s) (\<lambda>k. True) (es @ [e])"
    and "r \<noteq> Inl ClientConstructError \<longrightarrow> errors_logged (logger s) (\<lambda>k. True) es"
    and "r = Inr True \<longleftrightarrow> Call AddInstance True \<in> set es"
    and "r = Inr True \<longrightarrow> registered s'" and "r \<noteq> Inr True \<longrightarrow> registered s' = registered s"
  shows "registration_run s (r, s')"
  unfolding registration_run_def using assms by auto

lemma registration_run_step:
  assumes "frame s s1" and "client s \<longrightarrow> client s1" and "trace s1 = trace s @ es1"
    and "list_all registration_event es1"
    and "errors_logged (logger s) (\<lambda>k. True) es1"
    and "Call AddInstance True \<notin> set es1"
    and "registered s1 = registered s"
    and "registration_run s1 res"
  shows "registration_run s res"
proof -
  obtain r s' where res: "res = (r, s')" by (cases res)
  have lg: "logger s1 = logger s" using assms(1) by (rule frame_logger)
  from assms(8) res lg obtain es where es:
    "frame s1 s'" "client s1 \<longrightarrow> client s'" "trace s' = trace s1 @ es"
    "list_all registration_event es"
    "errors_logged (logger s) (\<lambda>k. k \<noteq> Construct) es"
    "\<forall>e. alert (logger s) e \<longrightarrow> errors_logged (logger s) (\<lambda>k. True) (es @ [e])"
    "r = Inr True \<longleftrightarrow> Call AddInstance True \<in> set es"
    "r = Inr True \<longrightarrow> registered s'" "r \<noteq> Inr True \<longrightarrow> registered s' = registered s1"
    "r \<noteq> Inl ClientConstructError \<longrightarrow> errors_logged (logger s) (\<lambda>k. True) es"
    unfolding registration_run_def by auto
  have 1: "errors_logged (logger s) (\<lambda>k. k \<noteq> Construct) es1"
    using assms(5) by (rule errors_logged_weaken) simp
  show ?thesis unfolding res
  proof (rule registration_runI[where es = "es1 @ es"])
    show "frame s s'" using assms(1) es(1) by (rule frame_trans)
    show "client s \<longrightarrow> client s'" using assms(2) es(2) by simp
    show "trace s' = trace s @ es1 @ es" using assms(3) es(3) by simp
    show "list_all registration_event (es1 @ es)" using assms(4) es(4) by simp
    show "errors_logged (logger s) (\<lambda>k. k \<noteq> Construct) (es1 @ es)"
      using 1 es(5) by (rule errors_logged_append)
    show "errors_logged (logger s) (\<lambda>k. True) ((es1 @ es) @ [e])" if "alert (logger s) e" for e
      using errors_logged_append[OF assms(5), of "es @ [e]"] es(6) that by simp
    show "r \<noteq> Inl ClientConstructError \<longrightarrow> errors_logged (logger s) (\<lambda>k. True) (es1 @ es)"
      using errors_logged_append[OF assms(5), of es] es(10) by simp
    show "r = Inr True \<longleftrightarrow> Call AddInstance True \<in> set (es1 @ es)"
      using assms(6) es(7) by simp
    show "r = Inr True \<longrightarrow> registered s'" using es(8) .
    show "r \<noteq> Inr True \<longrightarrow> registered s' = registered s" using es(9) assms(7) by simp
  qed
qed

lemma registration_run_refl: "r \<noteq> Inr True \<Longrightarrow> registration_run s (r, s)"
  by (rule registration_runI[where es = "[]"]) (simp_all add: frame_refl caught_error_def alert_def split: event.splits)

lemma frame_register_once: "frame s (snd (register_once env s))"
  by (simp add: register_once_cases frame_def)

lemma register_attempts_general:
  "registration_run s (register_attempts env retries delay attempt s)"
proof (induction "nat (retries + 1 - attempt)" arbitrary: attempt s)
  case 0
  then have "\<not> attempt < retries + 1" by linarith
  then have "register_attempts env retries delay attempt s = (Inr False, s)"
    by (rule register_attempts_done)
  then show ?case using registration_run_refl[of "Inr False" s] by simp
next
  case (Suc n)
  then have lt: "attempt < retries + 1" by linarith
  have n: "n = nat (retries + 1 - (attempt + 1))" using Suc(2) by linarith
  note IH = Suc(1)[OF n]
  let ?lg = "logger s"
  show ?case
  proof (cases "client s \<and> env AddInstance (seen s AddInstance)")
    case True
    define s1 where "s1 = snd (register_once env s)"
    have r: "register_once env s = (True, s1)" using True by (simp add: s1_def register_once_cases)
    have fr: "frame s s1" unfolding s1_def by (rule frame_register_once)
    have t1: "trace s1 = trace s @ [Call AddInstance True, line ?lg Info ServiceRegistered]"
      "client s1" "registered s1"
      using True by (simp_all add: s1_def register_once_cases)
    have "registration_run s (Inr True, s1)"
    proof (rule registration_runI[where es = "[Call AddInstance True, line ?lg Info ServiceRegistered]"])
      show "errors_logged ?lg (\<lambda>k. True)
             ([Call AddInstance True, line ?lg Info ServiceRegistered] @ [e])"
        if "alert ?lg e" for e
        using that by (simp add: caught_error_def alert_def line_def split: event.splits)
    qed (use fr t1 in \<open>simp_all add: registration_event_def registration_msg_def line_def
          caught_error_def\<close>)
    moreover have "register_attempts env retries delay attempt s = (Inr True, s1)"
      using r lt by (subst register_attempts.simps) simp
    ultimately show ?thesis by simp
  next
    case False
    define s1 where "s1 = snd (register_once env s)"
    define es1 where "es1 = [if client s then Call AddInstance False else AttrError AddInstance,
        line ?lg Warning RegisterFailed, line ?lg Debug Traceback]"
    have r: "register_once env s = (False, s1)"
      using False by (simp add: s1_def register_once_cases)
    have f1: "frame s s1" "client s \<longrightarrow> client s1" "trace s1 = trace s @ es1"
      "registered s1 = registered s" "logger s1 = logger s"
      using False frame_register_once[of s env]
      by (simp_all add: s1_def es1_def register_once_cases)
    have e1: "list_all registration_event es1" "errors_logged ?lg (\<lambda>k. True) es1"
      "Call AddInstance True \<notin> set es1"
      by (simp_all add: es1_def registration_event_def registration_msg_def line_def
          caught_error_def alert_def)
    show ?thesis
    proof (cases "attempt < retries")
      case last: False
      have "register_attempts env retries delay attempt s =
              register_attempts env retries delay (attempt + 1) s1"
        using r lt last by (subst register_attempts.simps) simp
      moreover have "registration_run s (register_attempts env retries delay (attempt + 1) s1)"
        using f1(1-3) e1 f1(4) IH by (rule registration_run_step)
      ultimately show ?thesis by simp
    next
      case more: True
      define s2 where "s2 = log Info (RegistrationRetry attempt retries delay) s1"
      define es2 where "es2 = es1 @ [line ?lg Info (RegistrationRetry attempt retries delay)]"
      have "frame s1 s2" unfolding s2_def by (rule frame_log)
      with f1(1) have f2a: "frame s s2" by (rule frame_trans)
      have f2: "client s \<longrightarrow> client s2" "trace s2 = trace s @ es2"
        "registered s2 = registered s"
        using f1(2-5) by (simp_all add: s2_def es2_def log_trace log_fields)
      have ev2: "registration_event (line ?lg Info (RegistrationRetry attempt retries delay))"
        "\<not> caught_error (\<lambda>k. True) (line ?lg Info (RegistrationRetry attempt retries delay))"
        by (simp_all add: registration_event_def registration_msg_def line_def caught_error_def)
      have e2: "list_all registration_event es2" "errors_logged ?lg (\<lambda>k. True) es2"
        "Call AddInstance True \<notin> set es2"
      proof -
        show "list_all registration_event es2" using e1(1) ev2(1) by (simp add: es2_def)
        show "errors_logged ?lg (\<lambda>k. True) es2"
          unfolding es2_def using e1(2) ev2(2) by (intro errors_logged_append) simp_all
        show "Call AddInstance True \<notin> set es2" using e1(3) by (simp add: es2_def line_def)
      qed
      show ?thesis
      proof (cases "delay < 0")
        case True
        have "register_attempts env retries delay attempt s = (Inl (ValueError SleepLengthNegative), s2)"
          using r lt more True by (subst register_attempts.simps) (simp add: s2_def sleep_def)
        moreover have "registration_run s2 (Inl (ValueError SleepLengthNegative), s2)"
          by (rule registration_run_refl) simp
        with f2a f2(1,2) e2 f2(3)
        have "registration_run s (Inl (ValueError SleepLengthNegative), s2)"
          by (rule registration_run_step)
        ultimately show ?thesis by simp
      next
        case False
        define s3 where "s3 = emit (Sleep delay) s2"
        have "frame s2 s3" unfolding s3_def by (rule frame_emit)
        with f2a have f3a: "frame s s3" by (rule frame_trans)
        have f3: "client s \<longrightarrow> client s3" "trace s3 = trace s @ (es2 @ [Sleep delay])"
          "registered s3 = registered s"
          using f2 by (simp_all add: s3_def emit_def)
        have e3: "list_all registration_event (es2 @ [Sleep delay])"
          "errors_logged ?lg (\<lambda>k. True) (es2 @ [Sleep delay])"
          "Call AddInstance True \<notin> set (es2 @ [Sleep delay])"
        proof -
          show "list_all registration_event (es2 @ [Sleep delay])"
            using e2(1) by (simp add: registration_event_def)
          show "errors_logged ?lg (\<lambda>k. True) (es2 @ [Sleep delay])"
            using e2(2) by (intro errors_logged_append) (simp_all add: caught_error_def)
          show "Call AddInstance True \<notin> set (es2 @ [Sleep delay])" using e2(3) by simp
        qed
        have "register_attempts env retries delay attempt s =
                register_attempts env retries delay (attempt + 1) s3"
          using r lt more False
          by (subst register_attempts.simps) (simp add: s2_def s3_def sleep_def)
        moreover have "registration_run s (register_attempts env retries delay (attempt + 1) s3)"
          using f3a f3(1,2) e3 f3(3) IH by (rule registration_run_step)
        ultimately show ?thesis by simp
      qed
    qed
  qed
qed


lemma init_client_frame: "frame s (snd (init_client env s))"
  by (simp add: init_client_cases frame_def)

lemma register_with_retry_general:
  "registration_run s (register_with_retry env retries delay s)"
proof -
  define rs where "rs = (case retries of None \<Rightarrow> register_retries s | Some r \<Rightarrow> r)"
  define d where "d = (case delay of None \<Rightarrow> register_retry_delay s | Some d \<Rightarrow> d)"
  let ?lg = "logger s"
  consider (present) "client s" | (built) "\<not> client s" "env Construct (seen s Construct)"
    | (failed) "\<not> client s" "\<not> env Construct (seen s Construct)"
    by blast
  then show ?thesis
  proof cases
    case present
    then have "register_with_retry env retries delay s = register_attempts env rs d 1 s"
      by (simp add: register_with_retry_def init_client_cases rs_def d_def)
    then show ?thesis by (simp add: register_attempts_general)
  next
    case built
    define s1 where "s1 = snd (init_client env s)"
    define es1 where "es1 = [Call Construct True, line ?lg Info ClientInitialized]"
    have i: "init_client env s = (Inr (), s1)" using built by (simp add: s1_def init_client_cases)
    have f1: "frame s s1" unfolding s1_def by (rule init_client_frame)
    have g1: "client s \<longrightarrow> client s1" "trace s1 = trace s @ es1" "registered s1 = registered s"
      using built by (simp_all add: s1_def es1_def init_client_cases)
    have e1: "list_all registration_event es1" "errors_logged ?lg (\<lambda>k. True) es1"
      "Call AddInstance True \<notin> set es1"
      by (simp_all add: es1_def registration_event_def registration_msg_def line_def caught_error_def)
    have "register_with_retry env retries delay s = register_attempts env rs d 1 s1"
      using i by (simp add: register_with_retry_def rs_def d_def)
    moreover have "registration_run s (register_attempts env rs d 1 s1)"
      using f1 g1(1,2) e1 g1(3) register_attempts_general by (rule registration_run_step)
    ultimately show ?thesis by simp
  next
    case failed
    define s1 where "s1 = snd (init_client env s)"
    have i: "init_client env s = (Inl ClientConstructError, s1)"
      using failed by (simp add: s1_def init_client_cases)
    have f1: "frame s s1" unfolding s1_def by (rule init_client_frame)
    have g1: "client s \<longrightarrow> client s1" "trace s1 = trace s @ [Call Construct False]"
      "registered s1 = registered s"
      using failed by (simp_all add: s1_def init_client_cases)
    have "register_with_retry env retries delay s = (Inl ClientConstructError, s1)"
      using i by (simp add: register_with_retry_def)
    moreover have "registration_run s (Inl ClientConstructError, s1)"
    proof (rule registration_runI[where es = "[Call Construct False]"])
      show "errors_logged ?lg (\<lambda>k. True) ([Call Construct False] @ [e])" if "alert ?lg e" for e
        using that by (simp add: caught_error_def alert_def split: event.splits)
    qed (use f1 g1 in \<open>simp_all add: registration_event_def caught_error_def\<close>)
    ultimately show ?thesis by simp
  qed
qed

lemma register_with_retry_returns_client:
  assumes "register_with_retry env retries delay s = (Inr b, s')"
  shows "client s'"
proof -
  define rs where "rs = (case retries of None \<Rightarrow> register_retries s | Some r \<Rightarrow> r)"
  define d where "d = (case delay of None \<Rightarrow> register_retry_delay s | Some d \<Rightarrow> d)"
  define s1 where "s1 = snd (init_client env s)"
  have ok: "client s \<or> env Construct (seen s Construct)"
    using assms by (auto simp: register_with_retry_def init_client_cases split: if_splits)
  then have c1: "client s1" and i: "init_client env s = (Inr (), s1)"
    by (auto simp: s1_def init_client_cases)
  from i assms have "register_attempts env rs d 1 s1 = (Inr b, s')"
    by (simp add: register_with_retry_def rs_def d_def)
  with register_attempts_general[of s1 env rs d 1] c1 show ?thesis
    by (simp add: registration_run_def)
qed

section \<open>Stopping\<close>

lemma stop_thread_part:
  "stop env t s = snd (remove_once env
     (if heartbeat_thread s \<and> env ThreadAlive (seen s ThreadAlive) then
        s\<lparr>seen := (seen s)(ThreadAlive := Suc (seen s ThreadAlive)), heartbeat_stop := True,
          trace := trace s @ [SetStop, Join t]\<rparr>
      else if heartbeat_thread s then s\<lparr>seen := (seen s)(ThreadAlive := Suc (seen s ThreadAlive))\<rparr>
      else s))"
  by (simp add: stop_def ask_def emit_def Let_def)

lemma stop_client: "client (stop env t s) = client s"
  by (simp add: stop_thread_part remove_once_cases)

lemma stop_logger: "logger (stop env t s) = logger s"
  by (simp add: stop_thread_part remove_once_cases)

lemma stop_keeps_signal: "heartbeat_stop s \<Longrightarrow> heartbeat_stop (stop env t s)"
  by (simp add: stop_thread_part remove_once_cases)

lemma stop_events:
  "\<exists>es. trace (stop env t s) = trace s @ es \<and>
        calls_of RemoveInstance es = (if client s then 1 else 0) \<and>
        errors_logged (logger s) (\<lambda>k. True) es"
  by (simp add: stop_thread_part remove_once_cases calls_of_def caught_error_def alert_def line_def)

lemma stop_ignores_registered:
  "events_since (s\<lparr>registered := b\<rparr>) (stop env t (s\<lparr>registered := b\<rparr>)) =
   events_since s (stop env t s)"
  by (simp add: stop_thread_part remove_once_cases events_since_def)

section \<open>Concrete runs\<close>

lemmas run_defs =
  start_def register_with_retry_def init_client_cases register_attempts.simps
  register_once_cases remove_once_cases stop_thread_part registry_up_def registry_down_def
  fresh_service_def NacosService_def line_def prims Let_def

lemma started_service_eval:
  "started_service =
     fresh_service\<lparr>client := True, heartbeat_thread := True, registered := True,
       seen := (\<lambda>k. if k = Construct \<or> k = AddInstance then 1 else 0),
       trace := [Call Construct True, LogLine Info ClientInitialized,
                 Call AddInstance True, LogLine Info ServiceRegistered,
                 ClearStop, ThreadStart, LogLine Info (HeartbeatThreadStarted 5)]\<rparr>"
  by (simp add: started_service_def run_defs fun_eq_iff)

section \<open>Stop\<close>

text \<open>
  Claim C2, as stated, fails. After a successful \<^verbatim>\<open>start\<close> the first \<^verbatim>\<open>stop\<close> deregisters
  and leaves \<open>registered\<close> false; the second \<^verbatim>\<open>stop\<close> nevertheless calls
  remove-instance once more.
\<close>

theorem stop_twice_counterexample:
  "\<not> registered (stop registry_up 2 started_service) \<and>
   calls_of RemoveInstance
     (events_since (stop registry_up 2 started_service)
        (stop registry_up 2 (stop registry_up 2 started_service))) = 1"
  by (simp add: started_service_eval run_defs events_since_def calls_of_def)

text \<open>
  Claim C2, amended. \<^verbatim>\<open>stop\<close> never reads \<open>registered\<close>: its events are the same
  whatever the flag is. Every call of \<^verbatim>\<open>stop\<close> makes exactly one remove-instance call
  when the client handle exists and none when it does not, so a second \<^verbatim>\<open>stop\<close> right
  after the first makes one more.
\<close>

theorem stop_always_attempts_removal:
  "calls_of RemoveInstance (events_since s (stop env t s)) = (if client s then 1 else 0) \<and>
   calls_of RemoveInstance (events_since (stop env t s) (stop env t' (stop env t s))) =
     (if client s then 1 else 0) \<and>
   events_since (s\<lparr>registered := b\<rparr>) (stop env t (s\<lparr>registered := b\<rparr>)) =
     events_since s (stop env t s)"
proof -
  have one: "calls_of RemoveInstance (events_since s (stop env t s)) = (if client s then 1 else 0)"
    for s t
  proof -
    from stop_events[of env t s] obtain es where
      "trace (stop env t s) = trace s @ es" "calls_of RemoveInstance es = (if client s then 1 else 0)"
      by blast
    then show ?thesis by (simp add: events_since_append)
  qed
  show ?thesis using one[of s t] one[of "stop env t s" t'] stop_ignores_registered[where s = s and b = b and env = env and t = t]
    by (simp add: stop_client)
qed

theorem stop_always_attempts_removal_witness:
  "client started_service \<and>
   calls_of RemoveInstance (events_since started_service (stop registry_up 2 started_service)) = 1 \<and>
   calls_of RemoveInstance
     (events_since (stop registry_up 2 started_service)
        (stop registry_up 2 (stop registry_up 2 started_service))) = 1"
  using stop_always_attempts_removal[of started_service registry_up 2 2]
  by (simp add: started_service_eval)

section \<open>Start\<close>

lemma start_as_registration:
  "start env s =
     (case register_with_retry env None None s of
        (Inl e, s2) \<Rightarrow> (Inl e, s2)
      | (Inr ok, s2) \<Rightarrow>
          if \<not> ok then (Inr (), log Error RegistrationGaveUp s2)
          else if ephemeral s2 then
            (Inr (), log Info (HeartbeatThreadStarted (heartbeat_interval s2))
               (emit ThreadStart ((emit ClearStop (s2\<lparr>heartbeat_stop := False\<rparr>))
                  \<lparr>heartbeat_thread := True\<rparr>)))
          else (Inr (), s2))"
  by (simp add: start_def register_with_retry_def init_client_cases emit_def Let_def
      split: sum.splits prod.splits)

lemma registration_event_ThreadStart: "list_all registration_event es \<Longrightarrow> ThreadStart \<notin> set es"
  by (auto simp: list_all_iff registration_event_def)

text \<open>
  Claim C5. \<^verbatim>\<open>start\<close> starts the heartbeat thread exactly when \<^verbatim>\<open>register_with_retry\<close>
  (with the configured retries and delay) returns \<^verbatim>\<open>True\<close> and the instance is ephemeral.
  When registration returns \<^verbatim>\<open>False\<close>, \<^verbatim>\<open>start\<close> returns normally, its last effect is the
  error line, no thread is started, and the flags \<open>registered\<close>, \<open>heartbeat_thread\<close>
  and \<open>heartbeat_stop\<close> are as before: a controller that was not registered, as
  \<^verbatim>\<open>__init__\<close> leaves it, is still not registered. When the constructor of the client
  raises, the exception leaves \<^verbatim>\<open>start\<close> and no thread is started either.
\<close>

theorem start_spawns_heartbeat:
  "(ThreadStart \<in> set (events_since s (snd (start env s))) \<longleftrightarrow>
      fst (register_with_retry env None None s) = Inr True \<and> ephemeral s) \<and>
   (fst (register_with_retry env None None s) = Inr True \<and> ephemeral s \<longrightarrow>
      fst (start env s) = Inr () \<and> heartbeat_thread (snd (start env s)) \<and>
      \<not> heartbeat_stop (snd (start env s)) \<and> registered (snd (start env s))) \<and>
   (fst (register_with_retry env None None s) = Inr False \<longrightarrow>
      fst (start env s) = Inr () \<and>
      events_since s (snd (start env s)) =
        events_since s (snd (register_with_retry env None None s)) @
          [line (logger s) Error RegistrationGaveUp] \<and>
      registered (snd (start env s)) = registered s \<and>
      heartbeat_thread (snd (start env s)) = heartbeat_thread s \<and>
      heartbeat_stop (snd (start env s)) = heartbeat_stop s)"
proof -
  obtain r s2 where reg: "register_with_retry env None None s = (r, s2)"
    by (cases "register_with_retry env None None s")
  from register_with_retry_general[of s env None None] reg obtain es where run:
    "frame s s2" "trace s2 = trace s @ es" "list_all registration_event es"
    "r = Inr True \<longrightarrow> registered s2" "r \<noteq> Inr True \<longrightarrow> registered s2 = registered s"
    unfolding registration_run_def by auto
  from run(1) have fr: "ephemeral s2 = ephemeral s" "logger s2 = logger s"
    "heartbeat_thread s2 = heartbeat_thread s" "heartbeat_stop s2 = heartbeat_stop s"
    by (simp_all add: frame_iff)
  have no: "ThreadStart \<notin> set es" using run(3) by (rule registration_event_ThreadStart)
  have ev: "events_since s s2 = es" using run(2) by (rule events_since_append)
  show ?thesis
  proof (cases r)
    case (Inl e)
    then show ?thesis using reg run(2) no
      by (simp add: start_as_registration events_since_def)
  next
    case (Inr ok)
    then show ?thesis using reg run(2,4,5) no fr
      by (cases ok) (simp_all add: start_as_registration events_since_def prims line_def)
  qed
qed

theorem start_spawns_heartbeat_witness:
  "fst (register_with_retry registry_down None None fresh_service) = Inr False \<and>
   fst (start registry_down fresh_service) = Inr () \<and>
   ThreadStart \<notin> set (trace (snd (start registry_down fresh_service))) \<and>
   last (trace (snd (start registry_down fresh_service))) = LogLine Error RegistrationGaveUp \<and>
   \<not> registered (snd (start registry_down fresh_service)) \<and>
   \<not> heartbeat_thread (snd (start registry_down fresh_service)) \<and>
   fst (register_with_retry registry_up None None fresh_service) = Inr True \<and>
   ephemeral fresh_service \<and>
   ThreadStart \<in> set (trace (snd (start registry_up fresh_service))) \<and>
   heartbeat_thread (snd (start registry_up fresh_service))"
proof -
  have down: "fst (register_with_retry registry_down None None fresh_service) = Inr False"
    by (simp add: run_defs)
  have up: "fst (register_with_retry registry_up None None fresh_service) = Inr True"
    "ephemeral fresh_service"
    by (simp_all add: run_defs)
  have tr: "events_since fresh_service s' = trace s'" for s'
    by (simp add: events_since_def fresh_service_def NacosService_def)
  have init: "\<not> registered fresh_service" "\<not> heartbeat_thread fresh_service" "logger fresh_service"
    by (simp_all add: fresh_service_def NacosService_def)
  note T = start_spawns_heartbeat[of fresh_service registry_down]
  from conjunct1[OF T] down
  have 0: "ThreadStart \<notin> set (trace (snd (start registry_down fresh_service)))"
    by (simp add: tr)
  from conjunct2[OF conjunct2[OF T]] down init
  have "fst (start registry_down fresh_service) = Inr () \<and>
   last (trace (snd (start registry_down fresh_service))) = LogLine Error RegistrationGaveUp \<and>
   \<not> registered (snd (start registry_down fresh_service)) \<and>
   \<not> heartbeat_thread (snd (start registry_down fresh_service))"
    by (simp add: tr line_def)
  with 0 have 1: "fst (start registry_down fresh_service) = Inr () \<and>
   ThreadStart \<notin> set (trace (snd (start registry_down fresh_service))) \<and>
   last (trace (snd (start registry_down fresh_service))) = LogLine Error RegistrationGaveUp \<and>
   \<not> registered (snd (start registry_down fresh_service)) \<and>
   \<not> heartbeat_thread (snd (start registry_down fresh_service))"
    by simp
  from start_spawns_heartbeat[of fresh_service registry_up] up
  have 2: "ThreadStart \<in> set (trace (snd (start registry_up fresh_service))) \<and>
   heartbeat_thread (snd (start registry_up fresh_service))"
    by (simp add: tr)
  from down up 1 2 show ?thesis by simp
qed

section \<open>The stop signal\<close>

lemma register_with_retry_frame: "frame s (snd (register_with_retry env retries delay s))"
  using register_with_retry_general[of s env retries delay]
  by (cases "register_with_retry env retries delay s") (simp add: registration_run_def)

lemma register_with_retry_keeps_signal:
  "heartbeat_stop (snd (register_with_retry env retries delay s)) = heartbeat_stop s"
  using register_with_retry_frame[of s env retries delay] by (simp add: frame_iff)

lemma start_stop_signal:
  "heartbeat_stop (snd (start env s)) \<longleftrightarrow>
     heartbeat_stop s \<and> \<not> (fst (register_with_retry env None None s) = Inr True \<and> ephemeral s)"
proof -
  obtain r s2 where reg: "register_with_retry env None None s = (r, s2)"
    by (cases "register_with_retry env None None s")
  from register_with_retry_frame[of s env None None] reg
  have "ephemeral s2 = ephemeral s" "heartbeat_stop s2 = heartbeat_stop s"
    by (simp_all add: frame_iff)
  then show ?thesis using reg
    by (cases r) (auto simp: start_as_registration prims)
qed

lemma stop_wait_keeps_signal: "heartbeat_stop s \<Longrightarrow> heartbeat_stop (snd (stop_wait env t s))"
  by (simp add: stop_wait_def prims)

lemma heartbeat_iteration_stopped:
  "heartbeat_stop s \<Longrightarrow>
     heartbeat_iteration env fc s = (Break, fc, emit (Wait (heartbeat_interval s) True) s)"
  by (simp add: heartbeat_iteration_def stop_wait_def)

lemma heartbeat_while_stopped: "heartbeat_stop s \<Longrightarrow> heartbeat_while n env fc s = (True, fc, s)"
  by (cases n) simp_all

lemma log_keeps:
  "heartbeat_stop (log lv m s) = heartbeat_stop s" "ephemeral (log lv m s) = ephemeral s"
  "heartbeat_thread (log lv m s) = heartbeat_thread s"
  "heartbeat_max_failures (log lv m s) = heartbeat_max_failures s"
  by (simp_all add: prims)

text \<open>The self-healing block with its intermediate states named.\<close>

lemma self_healing_unfold:
  assumes "s2 = snd (client_call env RemoveInstance (log Warning SelfHealingStart s))"
    and "register_with_retry env None None s2 = (r, s3)"
  shows "self_healing env fc s =
     (case r of
        Inr ok \<Rightarrow> if ok then (0, log Info SelfHealingSucceeded s3)
                  else (fc, log Error SelfHealingFailed s3)
      | Inl e \<Rightarrow> (fc, log Debug Traceback (log Error SelfHealingException s3)))"
  using assms by (simp add: self_healing_def Let_def split_def split: sum.splits)

lemma self_healing_keeps_signal:
  "heartbeat_stop (snd (self_healing env fc s)) = heartbeat_stop s"
proof -
  define s2 where "s2 = snd (client_call env RemoveInstance (log Warning SelfHealingStart s))"
  have s2: "heartbeat_stop s2 = heartbeat_stop s" by (simp add: s2_def prims Let_def)
  obtain r s3 where reg: "register_with_retry env None None s2 = (r, s3)"
    by (cases "register_with_retry env None None s2")
  with register_with_retry_keeps_signal[of env None None s2] s2
  have "heartbeat_stop s3 = heartbeat_stop s" by simp
  then show ?thesis
    unfolding self_healing_unfold[OF s2_def reg]
    by (simp add: log_keeps split: sum.splits)
qed

lemma install_keeps_signal:
  "heartbeat_stop (install_signal_handlers env ci ct s) = heartbeat_stop s"
  by (simp add: install_signal_handlers_def set_signal_def prims Let_def)

lemma restore_keeps_signal: "heartbeat_stop (restore_signal_handlers env s) = heartbeat_stop s"
  by (simp add: restore_signal_handlers_def set_signal_def prims Let_def split: option.splits)


lemma heartbeat_iteration_break:
  "fst (heartbeat_iteration env fc s) = Break \<Longrightarrow> heartbeat_stop (snd (snd (heartbeat_iteration env fc s)))"
  by (simp add: heartbeat_iteration_def stop_wait_def prims Let_def split_def split: if_splits)

lemma heartbeat_while_left:
  "fst (heartbeat_while n env fc s) \<Longrightarrow> heartbeat_stop (snd (snd (heartbeat_while n env fc s)))"
proof (induction n arbitrary: fc s)
  case 0
  then show ?case by simp
next
  case (Suc n)
  show ?case
  proof (cases "heartbeat_stop s")
    case True
    then show ?thesis by simp
  next
    case False
    obtain c fc' s' where it: "heartbeat_iteration env fc s = (c, fc', s')"
      by (cases "heartbeat_iteration env fc s")
    show ?thesis
    proof (cases c)
      case Break
      with heartbeat_iteration_break[of env fc s] it False show ?thesis by simp
    next
      case Continue
      with Suc.prems it False have "fst (heartbeat_while n env fc' s')" by simp
      then have "heartbeat_stop (snd (snd (heartbeat_while n env fc' s')))" by (rule Suc.IH)
      with it False Continue show ?thesis by simp
    qed
  qed
qed

text \<open>
  Claim C6, as stated, fails: \<^verbatim>\<open>start\<close> calls \<^verbatim>\<open>self._heartbeat_stop.clear()\<close>. After
  \<^verbatim>\<open>start\<close> and \<^verbatim>\<open>stop\<close> the stop signal is set, and a second \<^verbatim>\<open>start\<close> whose registration
  succeeds unsets it.
\<close>

theorem stop_signal_counterexample:
  "heartbeat_stop (stop registry_up 2 started_service) \<and>
   \<not> heartbeat_stop (snd (start registry_up (stop registry_up 2 started_service)))"
proof -
  have 1: "heartbeat_stop (stop registry_up 2 started_service)"
    by (simp add: started_service_eval run_defs)
  have 2: "fst (register_with_retry registry_up None None (stop registry_up 2 started_service)) = Inr True"
    by (simp add: started_service_eval run_defs)
  have 3: "ephemeral (stop registry_up 2 started_service)"
    by (simp add: started_service_eval run_defs)
  from 1 2 3 show ?thesis by (simp add: start_stop_signal)
qed

text \<open>
  Claim C6, amended. A set stop signal is unset by \<^verbatim>\<open>start\<close> (and by \<^verbatim>\<open>__enter__\<close>, which
  calls it) exactly when the registration succeeds on an ephemeral instance, and by
  nothing else: the client initialisation, the registration and removal methods,
  \<^verbatim>\<open>stop\<close>, the heartbeat loop with its self-healing block, the installation and
  restoration of signal handlers and \<^verbatim>\<open>__exit__\<close> all leave it set. Moreover the
  heartbeat loop is only ever left with the signal set.
\<close>

theorem stop_signal_cleared_only_by_start:
  assumes "heartbeat_stop s"
  shows "heartbeat_stop (snd (init_client env s)) \<and>
     heartbeat_stop (snd (register_once env s)) \<and>
     heartbeat_stop (snd (register_with_retry env retries delay s)) \<and>
     heartbeat_stop (snd (remove_once env s)) \<and>
     heartbeat_stop (stop env t s) \<and>
     heartbeat_stop (snd (self_healing env fc s)) \<and>
     heartbeat_stop (snd (snd (heartbeat_iteration env fc s))) \<and>
     heartbeat_stop (snd (snd (heartbeat_loop n env s))) \<and>
     heartbeat_stop (install_signal_handlers env cur_sigint cur_sigterm s) \<and>
     heartbeat_stop (restore_signal_handlers env s) \<and>
     heartbeat_stop (exit env s) \<and>
     (heartbeat_stop (snd (start env s)) \<longleftrightarrow>
        \<not> (fst (register_with_retry env None None s) = Inr True \<and> ephemeral s)) \<and>
     (heartbeat_stop (snd (enter env cur_sigint cur_sigterm s)) \<longleftrightarrow>
        \<not> (fst (register_with_retry env None None
                  (install_signal_handlers env cur_sigint cur_sigterm s)) = Inr True \<and>
           ephemeral s)) \<and>
     (\<forall>s0. fst (heartbeat_loop n env s0) \<longrightarrow> heartbeat_stop (snd (snd (heartbeat_loop n env s0))))"
proof -
  have eph: "ephemeral (install_signal_handlers env cur_sigint cur_sigterm s) = ephemeral s"
    by (simp add: install_signal_handlers_def set_signal_def prims Let_def)
  have "heartbeat_stop (snd (init_client env s))"
    using assms by (simp add: init_client_cases)
  moreover have "heartbeat_stop (snd (register_once env s))"
    using assms by (simp add: register_once_cases)
  moreover have "heartbeat_stop (snd (register_with_retry env retries delay s))"
    using assms by (simp add: register_with_retry_keeps_signal)
  moreover have "heartbeat_stop (snd (remove_once env s))"
    using assms by (simp add: remove_once_cases)
  moreover have "heartbeat_stop (stop env t s)"
    using assms by (rule stop_keeps_signal)
  moreover have "heartbeat_stop (snd (self_healing env fc s))"
    using assms by (simp add: self_healing_keeps_signal)
  moreover have "heartbeat_stop (snd (snd (heartbeat_iteration env fc s)))"
    using assms by (simp add: heartbeat_iteration_stopped emit_def)
  moreover have "heartbeat_stop (snd (snd (heartbeat_loop n env s)))"
    using assms by (simp add: heartbeat_loop_def heartbeat_while_stopped)
  moreover have "heartbeat_stop (install_signal_handlers env cur_sigint cur_sigterm s)"
    using assms by (simp add: install_keeps_signal)
  moreover have "heartbeat_stop (restore_signal_handlers env s)"
    using assms by (simp add: restore_keeps_signal)
  moreover have "heartbeat_stop (exit env s)"
    using assms by (simp add: exit_def restore_keeps_signal stop_keeps_signal)
  moreover have "heartbeat_stop (snd (start env s)) \<longleftrightarrow>
        \<not> (fst (register_with_retry env None None s) = Inr True \<and> ephemeral s)"
    using assms by (simp add: start_stop_signal)
  moreover have "heartbeat_stop (snd (enter env cur_sigint cur_sigterm s)) \<longleftrightarrow>
        \<not> (fst (register_with_retry env None None
                  (install_signal_handlers env cur_sigint cur_sigterm s)) = Inr True \<and>
           ephemeral s)"
    using assms by (simp add: enter_def start_stop_signal install_keeps_signal eph)
  moreover have "\<forall>s0. fst (heartbeat_loop n env s0) \<longrightarrow>
      heartbeat_stop (snd (snd (heartbeat_loop n env s0)))"
    by (simp add: heartbeat_loop_def heartbeat_while_left)
  ultimately show ?thesis by blast
qed

theorem stop_signal_cleared_only_by_start_witness:
  "heartbeat_stop (stop registry_up 2 started_service) \<and>
   heartbeat_stop (stop registry_up 2 (stop registry_up 2 started_service)) \<and>
   heartbeat_stop (snd (register_with_retry registry_up None None (stop registry_up 2 started_service))) \<and>
   fst (register_with_retry registry_down None None (stop registry_up 2 started_service)) = Inr False \<and>
   heartbeat_stop (snd (start registry_down (stop registry_up 2 started_service))) \<and>
   heartbeat_stop (snd (snd (heartbeat_loop 3 registry_up (stop registry_up 2 started_service)))) \<and>
   \<not> heartbeat_stop started_service \<and>
   fst (heartbeat_loop 3 stop_requested started_service) \<and>
   heartbeat_stop (snd (snd (heartbeat_loop 3 stop_requested started_service)))"
proof -
  have 1: "heartbeat_stop (stop registry_up 2 started_service)"
    by (simp add: started_service_eval run_defs)
  have 2: "fst (register_with_retry registry_down None None (stop registry_up 2 started_service)) = Inr False"
    by (simp add: started_service_eval run_defs)
  have 3: "\<not> heartbeat_stop started_service"
    "fst (heartbeat_loop 3 stop_requested started_service)"
    by (simp_all add: started_service_eval fresh_service_def NacosService_def heartbeat_loop_def
        eval_nat_numeral heartbeat_iteration_def stop_wait_def stop_requested_def prims)
  note T = stop_signal_cleared_only_by_start[OF 1]
  from T[of registry_up None None 2 0 3 None None] T[of registry_down None None 2 0 3 None None]
    T[of stop_requested None None 2 0 3 None None] 1 2 3
  show ?thesis by simp
qed

section \<open>The decorator\<close>

lemma start_descriptor:
  "service_ip (snd (start env s)) = service_ip s \<and> service_port (snd (start env s)) = service_port s"
proof -
  obtain r s2 where reg: "register_with_retry env None None s = (r, s2)"
    by (cases "register_with_retry env None None s")
  from register_with_retry_frame[of s env None None] reg
  have "service_ip s2 = service_ip s" "service_port s2 = service_port s"
    by (simp_all add: frame_iff)
  then show ?thesis using reg
    by (cases r) (simp_all add: start_as_registration prims)
qed

lemma stop_descriptor:
  "service_ip (stop env t s) = service_ip s \<and> service_port (stop env t s) = service_port s"
  by (simp add: stop_thread_part remove_once_cases)

lemma install_descriptor:
  "service_ip (install_signal_handlers env ci ct s) = service_ip s \<and>
   service_port (install_signal_handlers env ci ct s) = service_port s"
  by (simp add: install_signal_handlers_def set_signal_def prims Let_def)

lemma restore_descriptor:
  "service_ip (restore_signal_handlers env s) = service_ip s \<and>
   service_port (restore_signal_handlers env s) = service_port s"
  by (simp add: restore_signal_handlers_def set_signal_def prims Let_def split: option.splits)

lemma enter_descriptor:
  "service_ip (snd (enter env ci ct s)) = service_ip s \<and>
   service_port (snd (enter env ci ct s)) = service_port s"
  by (simp add: enter_def start_descriptor install_descriptor)

lemma exit_descriptor:
  "service_ip (exit env s) = service_ip s \<and> service_port (exit env s) = service_port s"
  by (simp add: exit_def restore_descriptor stop_descriptor)

lemma parse_example:
  "rsplit1 (CHR '':'') ''10.0.0.1:8080'' = [''10.0.0.1'', ''8080'']" "py_int ''8080'' = Some 8080"
  by (simp_all add: rsplit1_def py_int_def strip_def is_space_def unsigned_literal_def
      is_digit_def digit_value_def)

text \<open>What \<^verbatim>\<open>wrapper\<close> does once the address has been split and the port parsed.\<close>

lemma wrapper_managed:
  assumes "arg_enabled a" and "arg_nacos_addr a \<noteq> []" and "arg_service_name a \<noteq> []"
    and "CHR '':'' \<in> set (arg_service_addr a)"
    and "rsplit1 (CHR '':'') (arg_service_addr a) = [ip, port_str]" and "py_int port_str = Some port"
  shows "\<exists>s. snd (snd (wrapper env ci ct a)) = Some s \<and> service_ip s = ip \<and> service_port s = port"
proof -
  define s0 where "s0 = NacosService (arg_nacos_addr a) (arg_namespace a) (arg_service_name a)
       ip port (arg_ephemeral a) (arg_metadata a) (arg_username a) (arg_password a) (arg_logger a)
       (arg_register_retries a) (arg_register_retry_delay a) (arg_heartbeat_interval a)
       (arg_heartbeat_max_failures a) (arg_heartbeat_retry_delay a)"
  have s0: "service_ip s0 = ip" "service_port s0 = port" by (simp_all add: s0_def NacosService_def)
  obtain r s1 where en: "enter env ci ct s0 = (r, s1)" by (cases "enter env ci ct s0")
  with enter_descriptor[of env ci ct s0] s0
  have s1: "service_ip s1 = ip" "service_port s1 = port" by simp_all
  obtain ok s2 where w: "call env WrappedFunc s1 = (ok, s2)" by (cases "call env WrappedFunc s1")
  then have s2: "service_ip s2 = ip" "service_port s2 = port"
    using s1 by (auto simp: prims Let_def)
  have s3: "service_ip (exit env s2) = ip" "service_port (exit env s2) = port"
    using s2 by (simp_all add: exit_descriptor)
  have ne: "arg_service_addr a \<noteq> []" using assms(4) by auto
  show ?thesis
    using assms ne en w s1 s3
    by (cases r) (simp_all add: wrapper_def s0_def[symmetric] decorated_exception_def Let_def)
qed


text \<open>
  Claim C8. With registration enabled and a registry address and a service name given,
  the address \<^verbatim>\<open>"10.0.0.1:8080"\<close> leads to a controller for the ip \<^verbatim>\<open>10.0.0.1\<close> and the port
  \<open>8080\<close>. An address without a colon, such as \<^verbatim>\<open>"badaddr"\<close>, is rejected: no controller
  is built and no call of the registry client is made; the call raises \<^verbatim>\<open>ValueError\<close>, or,
  when \<^verbatim>\<open>raise_on_register_fail\<close> is off, prints the message and runs the wrapped function
  directly, with that function's own outcome.
\<close>

theorem wrapper_activation_check:
  assumes "arg_enabled a" and "arg_nacos_addr a \<noteq> []" and "arg_service_name a \<noteq> []"
  shows
    "(arg_service_addr a = ''10.0.0.1:8080'' \<longrightarrow>
        (\<exists>s. snd (snd (wrapper env cur_sigint cur_sigterm a)) = Some s \<and>
             service_ip s = ''10.0.0.1'' \<and> service_port s = 8080)) \<and>
     (CHR '':'' \<notin> set (arg_service_addr a) \<longrightarrow>
        wrapper env cur_sigint cur_sigterm a =
          (if arg_raise_on_register_fail a then
             (Raised (ValueError (ServiceAddrFormat (arg_service_addr a))), [], None)
           else
             (if env WrappedFunc 0 then Returned else Raised WorkError,
              [Print (ServiceAddrFormat (arg_service_addr a)), Call WrappedFunc (env WrappedFunc 0)],
              None)) \<and>
        calls_of Construct (fst (snd (wrapper env cur_sigint cur_sigterm a))) = 0 \<and>
        calls_of AddInstance (fst (snd (wrapper env cur_sigint cur_sigterm a))) = 0 \<and>
        calls_of RemoveInstance (fst (snd (wrapper env cur_sigint cur_sigterm a))) = 0 \<and>
        calls_of SendHeartbeat (fst (snd (wrapper env cur_sigint cur_sigterm a))) = 0)"
proof (intro conjI impI)
  assume addr: "arg_service_addr a = ''10.0.0.1:8080''"
  then have "CHR '':'' \<in> set (arg_service_addr a)" by simp
  moreover have "rsplit1 (CHR '':'') (arg_service_addr a) = [''10.0.0.1'', ''8080'']"
    using addr parse_example(1) by simp
  ultimately show "\<exists>s. snd (snd (wrapper env cur_sigint cur_sigterm a)) = Some s \<and>
             service_ip s = ''10.0.0.1'' \<and> service_port s = 8080"
    using assms parse_example(2) by (intro wrapper_managed) simp_all
next
  assume no: "CHR '':'' \<notin> set (arg_service_addr a)"
  then have w: "wrapper env cur_sigint cur_sigterm a =
      validation_failure env a (ServiceAddrFormat (arg_service_addr a))"
    using assms by (simp add: wrapper_def)
  show "wrapper env cur_sigint cur_sigterm a =
          (if arg_raise_on_register_fail a then
             (Raised (ValueError (ServiceAddrFormat (arg_service_addr a))), [], None)
           else
             (if env WrappedFunc 0 then Returned else Raised WorkError,
              [Print (ServiceAddrFormat (arg_service_addr a)), Call WrappedFunc (env WrappedFunc 0)],
              None))"
    by (simp add: w validation_failure_def call_func_def Let_def)
  show "calls_of Construct (fst (snd (wrapper env cur_sigint cur_sigterm a))) = 0"
    "calls_of AddInstance (fst (snd (wrapper env cur_sigint cur_sigterm a))) = 0"
    "calls_of RemoveInstance (fst (snd (wrapper env cur_sigint cur_sigterm a))) = 0"
    "calls_of SendHeartbeat (fst (snd (wrapper env cur_sigint cur_sigterm a))) = 0"
    by (simp_all add: w validation_failure_def call_func_def Let_def calls_of_def)
qed

theorem wrapper_activation_check_witness:
  "arg_enabled example_args \<and> arg_nacos_addr example_args \<noteq> [] \<and>
   arg_service_name example_args \<noteq> [] \<and> arg_service_addr example_args = ''10.0.0.1:8080'' \<and>
   (\<exists>s. snd (snd (wrapper registry_up None None example_args)) = Some s \<and>
        service_ip s = ''10.0.0.1'' \<and> service_port s = 8080) \<and>
   CHR '':'' \<notin> set ''badaddr'' \<and>
   wrapper registry_up None None (example_args\<lparr>arg_service_addr := ''badaddr''\<rparr>) =
     (Raised (ValueError (ServiceAddrFormat ''badaddr'')), [], None) \<and>
   wrapper registry_up None None
       (example_args\<lparr>arg_service_addr := ''badaddr'', arg_raise_on_register_fail := False\<rparr>) =
     (Returned, [Print (ServiceAddrFormat ''badaddr''), Call WrappedFunc True], None)"
proof -
  have a: "arg_enabled example_args" "arg_nacos_addr example_args \<noteq> []"
    "arg_service_name example_args \<noteq> []" "arg_service_addr example_args = ''10.0.0.1:8080''"
    "arg_raise_on_register_fail example_args"
    by (simp_all add: example_args_def)
  from wrapper_activation_check[of example_args registry_up None None] a
  have 1: "\<exists>s. snd (snd (wrapper registry_up None None example_args)) = Some s \<and>
        service_ip s = ''10.0.0.1'' \<and> service_port s = 8080"
    by simp
  from wrapper_activation_check[of "example_args\<lparr>arg_service_addr := ''badaddr''\<rparr>"
      registry_up None None] a
  have 2: "wrapper registry_up None None (example_args\<lparr>arg_service_addr := ''badaddr''\<rparr>) =
     (Raised (ValueError (ServiceAddrFormat ''badaddr'')), [], None)"
    by simp
  from wrapper_activation_check[of
      "example_args\<lparr>arg_service_addr := ''badaddr'', arg_raise_on_register_fail := False\<rparr>"
      registry_up None None] a
  have 3: "wrapper registry_up None None
       (example_args\<lparr>arg_service_addr := ''badaddr'', arg_raise_on_register_fail := False\<rparr>) =
     (Returned, [Print (ServiceAddrFormat ''badaddr''), Call WrappedFunc True], None)"
    by (simp add: registry_up_def)
  from a 1 2 3 show ?thesis by simp
qed

section \<open>The heartbeat loop\<close>










subsection \<open>Counting on events\<close>


lemma failed_sends_append:
  "failed_sends_in_a_row c (xs @ ys) = failed_sends_in_a_row (failed_sends_in_a_row c xs) ys"
  by (simp add: failed_sends_in_a_row_def)




subsection \<open>Self-healing\<close>


subsection \<open>Lines\<close>










lemma registration_events_not_invoked:
  "list_all registration_event es \<Longrightarrow> \<not> self_healing_invoked es"
  by (auto simp: list_all_iff self_healing_invoked_def registration_event_def registration_msg_def)

subsection \<open>What the self-healing block does\<close>




subsection \<open>Single events\<close>





subsection \<open>What one pass of the loop does\<close>



subsection \<open>What the loop does\<close>



section \<open>The heartbeat loop\<close>









section \<open>Errors and log lines\<close>











section \<open>Self-healing\<close>





end
